theory Spec2Isabelle
  imports Complex_Main "HOL-Library.Sublist" "HOL-Library.Multiset"
begin

text \<open>
  The clip export of \<open>generatePublish.js\<close>: the timeline normalizer \<open>normTimeline\<close>, the
  filter graph builder \<open>buildFilterForConcat\<close>, the process runner \<open>runCmd\<close>, the stream
  prober \<open>hasAudioStream\<close> and the handler of \<open>POST /api/generate/publish\<close>, as functions
  over JavaScript values, with what the handler does to the outside recorded as a list of
  events and what the outside answers taken as a parameter.
\<close>

section \<open>Host values\<close>

text \<open>
  JavaScript numbers are IEEE doubles. The model keeps the three non-finite values apart
  and represents every finite double by the real number it denotes; the rounding of an
  arithmetic result to the nearest double is not modelled (no property below depends on
  it), and the two zeros are one value.
\<close>

datatype jsnum = NaN | NegInf | PosInf | Fin real

fun isFinite :: "jsnum \<Rightarrow> bool" where
  "isFinite (Fin x) = True"
| "isFinite _ = False"

text \<open>\<open>a > b\<close> and \<open>a >= b\<close>: false as soon as one side is NaN.\<close>

fun js_gt :: "jsnum \<Rightarrow> jsnum \<Rightarrow> bool" where
  "js_gt NaN _ = False"
| "js_gt _ NaN = False"
| "js_gt (Fin x) (Fin y) = (x > y)"
| "js_gt PosInf PosInf = False"
| "js_gt PosInf _ = True"
| "js_gt NegInf _ = False"
| "js_gt (Fin x) NegInf = True"
| "js_gt (Fin x) PosInf = False"

fun js_ge :: "jsnum \<Rightarrow> jsnum \<Rightarrow> bool" where
  "js_ge NaN _ = False"
| "js_ge _ NaN = False"
| "js_ge (Fin x) (Fin y) = (x \<ge> y)"
| "js_ge PosInf _ = True"
| "js_ge NegInf NegInf = True"
| "js_ge NegInf _ = False"
| "js_ge (Fin x) NegInf = True"
| "js_ge (Fin x) PosInf = False"

text \<open>\<open>a - b\<close>.\<close>

fun js_sub :: "jsnum \<Rightarrow> jsnum \<Rightarrow> jsnum" where
  "js_sub NaN _ = NaN"
| "js_sub _ NaN = NaN"
| "js_sub (Fin x) (Fin y) = Fin (x - y)"
| "js_sub PosInf PosInf = NaN"
| "js_sub NegInf NegInf = NaN"
| "js_sub PosInf _ = PosInf"
| "js_sub NegInf _ = NegInf"
| "js_sub (Fin x) PosInf = NegInf"
| "js_sub (Fin x) NegInf = PosInf"

text \<open>\<open>Math.max(a, b)\<close>: NaN as soon as one argument is NaN.\<close>

fun Math_max :: "jsnum \<Rightarrow> jsnum \<Rightarrow> jsnum" where
  "Math_max NaN _ = NaN"
| "Math_max _ NaN = NaN"
| "Math_max a b = (if js_gt b a then b else a)"

text \<open>
  The conversions between numbers and strings are the host's (\<open>Number::toString\<close>,
  \<open>StringToNumber\<close>); the functions below take them as a parameter.
\<close>

record builtins =
  NumberToString :: "jsnum \<Rightarrow> string"
  StringToNumber :: "string \<Rightarrow> jsnum"

text \<open>Array indices and lengths are small non-negative integers, printed in decimal.\<close>

definition digit :: "nat \<Rightarrow> char" where
  "digit d = ''0123456789'' ! d"

fun show_nat :: "nat \<Rightarrow> string" where
  "show_nat n = (if n < 10 then [digit n] else show_nat (n div 10) @ [digit (n mod 10)])"

declare show_nat.simps [simp del]

text \<open>\<open>Array.prototype.join\<close> on an array of strings.\<close>

fun js_join :: "string \<Rightarrow> string list \<Rightarrow> string" where
  "js_join sep [] = []"
| "js_join sep [x] = x"
| "js_join sep (x # y # ys) = x @ sep @ js_join sep (y # ys)"

text \<open>\<open>String.prototype.split\<close> with a one-character separator.\<close>

fun js_split :: "char \<Rightarrow> string \<Rightarrow> string list" where
  "js_split sep [] = [[]]"
| "js_split sep (c # cs) =
     (if c = sep then [] # js_split sep cs
      else (case js_split sep cs of
              [] \<Rightarrow> [[c]]
            | w # ws \<Rightarrow> (c # w) # ws))"

text \<open>
  Values as \<open>JSON.parse\<close> produces them, and \<open>undefined\<close>, the result of reading a
  property that is not there. An object is the table of its own properties.
\<close>

datatype json =
    JUndefined
  | JNull
  | JBool bool
  | JNum jsnum
  | JStr string
  | JArr "json list"
  | JObj "(string \<times> json) list"

text \<open>What the host or a collaborator throws; \<open>message\<close> is the \<open>message\<close> property.\<close>

datatype exn = TypeError (message: string) | Error (message: string)

fun nullish :: "json \<Rightarrow> bool" where
  "nullish JUndefined = True"
| "nullish JNull = True"
| "nullish _ = False"

text \<open>Truthiness, as \<open>||\<close>, \<open>!\<close> and \<open>filter(Boolean)\<close> test it.\<close>

fun truthy :: "json \<Rightarrow> bool" where
  "truthy JUndefined = False"
| "truthy JNull = False"
| "truthy (JBool b) = b"
| "truthy (JNum n) = (n \<noteq> NaN \<and> n \<noteq> Fin 0)"
| "truthy (JStr s) = (s \<noteq> [])"
| "truthy (JArr _) = True"
| "truthy (JObj _) = True"

text \<open>
  \<open>c.k\<close> for the property names this module reads (\<open>videoId\<close>, \<open>id\<close>, \<open>start\<close>,
  \<open>in\<close>, \<open>out\<close>): none of them is defined on a prototype, so a primitive and an array
  give \<open>undefined\<close>, and \<open>null\<close> and \<open>undefined\<close> throw.
\<close>

fun get_field :: "json \<Rightarrow> string \<Rightarrow> exn + json" where
  "get_field JUndefined k =
     Inl (TypeError (''Cannot read properties of undefined (reading '' @ [CHR 0x27] @ k @ [CHR 0x27] @ '')''))"
| "get_field JNull k =
     Inl (TypeError (''Cannot read properties of null (reading '' @ [CHR 0x27] @ k @ [CHR 0x27] @ '')''))"
| "get_field (JObj kvs) k = Inr (case map_of kvs k of None \<Rightarrow> JUndefined | Some v \<Rightarrow> v)"
| "get_field _ k = Inr JUndefined"

text \<open>
  \<open>String(v)\<close>. An array is joined with commas, \<open>null\<close> and \<open>undefined\<close> elements giving
  the empty string. An object converts through \<open>toString\<close>: an own property of that name
  came from JSON and is not callable, and then the conversion throws.
\<close>

fun js_String :: "builtins \<Rightarrow> json \<Rightarrow> exn + string"
  and join_elems :: "builtins \<Rightarrow> json list \<Rightarrow> exn + string" where
  "js_String B JUndefined = Inr ''undefined''"
| "js_String B JNull = Inr ''null''"
| "js_String B (JBool b) = Inr (if b then ''true'' else ''false'')"
| "js_String B (JNum n) = Inr (NumberToString B n)"
| "js_String B (JStr s) = Inr s"
| "js_String B (JArr xs) = join_elems B xs"
| "js_String B (JObj kvs) =
     (if map_of kvs ''toString'' = None then Inr ''[object Object]''
      else Inl (TypeError ''Cannot convert object to primitive value''))"
| "join_elems B [] = Inr []"
| "join_elems B (x # xs) =
     (case (if nullish x then Inr [] else js_String B x) of
        Inl e \<Rightarrow> Inl e
      | Inr s \<Rightarrow>
          (if xs = [] then Inr s
           else (case join_elems B xs of Inl e \<Rightarrow> Inl e | Inr r \<Rightarrow> Inr (s @ '','' @ r))))"

text \<open>\<open>Number(v)\<close>: an array or an object is converted to a string first.\<close>

fun js_Number :: "builtins \<Rightarrow> json \<Rightarrow> exn + jsnum" where
  "js_Number B JUndefined = Inr NaN"
| "js_Number B JNull = Inr (Fin 0)"
| "js_Number B (JBool b) = Inr (Fin (if b then 1 else 0))"
| "js_Number B (JNum n) = Inr n"
| "js_Number B (JStr s) = Inr (StringToNumber B s)"
| "js_Number B v = (case js_String B v of Inl e \<Rightarrow> Inl e | Inr s \<Rightarrow> Inr (StringToNumber B s))"

text \<open>
  \<open>Array.prototype.sort\<close> with a comparator: stable, \<open>a\<close> goes after \<open>b\<close> when
  \<open>cmp(a, b) > 0\<close>. Written as the insertion sort.
\<close>

fun insert_by :: "('a \<Rightarrow> 'a \<Rightarrow> jsnum) \<Rightarrow> 'a \<Rightarrow> 'a list \<Rightarrow> 'a list" where
  "insert_by cmp x [] = [x]"
| "insert_by cmp x (y # ys) =
     (if js_gt (cmp x y) (Fin 0) then y # insert_by cmp x ys else x # y # ys)"

definition js_sort :: "('a \<Rightarrow> 'a \<Rightarrow> jsnum) \<Rightarrow> 'a list \<Rightarrow> 'a list" where
  "js_sort cmp xs = foldr (insert_by cmp) xs []"

section \<open>Strings\<close>

text \<open>
  A string is the list of its code units, here those below 256. In that range the white
  space and the line terminators that \<open>trim\<close> removes are TAB, LF, VT, FF, CR, SP and
  NBSP, and the letters that \<open>toLowerCase\<close> changes are A to Z and the Latin-1 capitals
  (all of 0xC0 to 0xDE but the multiplication sign), each moved up by 32.
\<close>

definition isWhiteSpace :: "char \<Rightarrow> bool" where
  "isWhiteSpace c = (c \<in> set [CHR 0x09, CHR 0x0A, CHR 0x0B, CHR 0x0C, CHR 0x0D, CHR 0x20, CHR 0xA0])"

definition js_trim :: "string \<Rightarrow> string" where
  "js_trim s = rev (dropWhile isWhiteSpace (rev (dropWhile isWhiteSpace s)))"

definition isUpper :: "char \<Rightarrow> bool" where
  "isUpper c =
     (let n = (of_char c :: nat)
      in (65 \<le> n \<and> n \<le> 90) \<or> (192 \<le> n \<and> n \<le> 222 \<and> n \<noteq> 215))"

fun lower_char :: "char \<Rightarrow> char" where
  "lower_char (Char b0 b1 b2 b3 b4 b5 b6 b7) =
     (if isUpper (Char b0 b1 b2 b3 b4 b5 b6 b7) then Char b0 b1 b2 b3 b4 True b6 b7
      else Char b0 b1 b2 b3 b4 b5 b6 b7)"

definition js_toLowerCase :: "string \<Rightarrow> string" where
  "js_toLowerCase s = map lower_char s"

text \<open>\<open>Array.from(new Set(xs))\<close>: the elements are added in turn, an element already in the
  set is skipped, and the set lists its elements in the order they were added.\<close>

definition Set_add :: "'a list \<Rightarrow> 'a \<Rightarrow> 'a list" where
  "Set_add acc x = (if x \<in> set acc then acc else acc @ [x])"

definition Array_from_Set :: "'a list \<Rightarrow> 'a list" where
  "Array_from_Set xs = fold (\<lambda>x acc. Set_add acc x) xs []"

section \<open>Tags of the published video\<close>

text \<open>
  \<open>split(",").map(t => t.trim().toLowerCase()).filter(Boolean)\<close>, then \<open>slice(0, 30)\<close>,
  then the set.
\<close>

definition tag_entries :: "string \<Rightarrow> string list" where
  "tag_entries s = filter (\<lambda>t. t \<noteq> []) (map (\<lambda>t. js_toLowerCase (js_trim t)) (js_split CHR '','' s))"

definition tag_list :: "string \<Rightarrow> string list" where
  "tag_list s = Array_from_Set (take 30 (tag_entries s))"

definition tagsArr :: "builtins \<Rightarrow> json \<Rightarrow> exn + string list" where
  "tagsArr B tags =
     (case js_String B (if truthy tags then tags else JStr []) of
        Inl e \<Rightarrow> Inl e
      | Inr s \<Rightarrow> Inr (tag_list s))"

section \<open>Process runner and stream prober\<close>

text \<open>
  What a spawned process does is the environment's: either the \<open>error\<close> event (the binary
  is missing, say) or the \<open>close\<close> event with the exit code (\<open>null\<close> when a signal killed
  it) and the text collected from its two streams.
\<close>

datatype proc_outcome = SpawnError exn | Closed "int option" string string

definition show_int :: "int \<Rightarrow> string" where
  "show_int i = (if i < 0 then ''-'' @ show_nat (nat (- i)) else show_nat (nat i))"

definition runCmd ::
  "(string \<Rightarrow> string list \<Rightarrow> proc_outcome) \<Rightarrow> string \<Rightarrow> string list \<Rightarrow> exn + string \<times> string" where
  "runCmd spawn cmd args =
     (case spawn cmd args of
        SpawnError e \<Rightarrow> Inl e
      | Closed code sout serr \<Rightarrow>
          (if code = Some 0 then Inr (sout, serr)
           else Inl (Error (if serr \<noteq> [] then serr
                            else cmd @ '' exited with code ''
                                   @ (case code of None \<Rightarrow> ''null'' | Some c \<Rightarrow> show_int c)))))"

definition probe_args :: "string \<Rightarrow> string list" where
  "probe_args filePath =
     [''-v'', ''error'', ''-select_streams'', ''a:0'', ''-show_entries'', ''stream=codec_type'',
      ''-of'', ''default=noprint_wrappers=1:nokey=1'', filePath]"

text \<open>The \<open>try\<close> of \<open>hasAudioStream\<close> turns every exception into \<open>false\<close>.\<close>

definition hasAudioStream ::
  "(string \<Rightarrow> string list \<Rightarrow> proc_outcome) \<Rightarrow> string \<Rightarrow> exn + bool" where
  "hasAudioStream spawn filePath =
     (case runCmd spawn ''ffprobe'' (probe_args filePath) of
        Inr (sout, serr) \<Rightarrow> Inr (js_trim sout = ''audio'')
      | Inl e \<Rightarrow> Inr False)"

section \<open>Timeline normalizer\<close>

record clip =
  videoId :: string
  start :: jsnum
  in' :: jsnum
  out :: jsnum

text \<open>Running a callback that may throw over an array: the first exception ends the run.\<close>

fun map_throwing :: "('a \<Rightarrow> exn + 'b) \<Rightarrow> 'a list \<Rightarrow> exn + 'b list" where
  "map_throwing f [] = Inr []"
| "map_throwing f (x # xs) =
     (case f x of
        Inl e \<Rightarrow> Inl e
      | Inr y \<Rightarrow> (case map_throwing f xs of Inl e \<Rightarrow> Inl e | Inr ys \<Rightarrow> Inr (y # ys)))"

text \<open>\<open>c.k ?? dflt\<close>.\<close>

definition field_or :: "json \<Rightarrow> string \<Rightarrow> json \<Rightarrow> exn + json" where
  "field_or c k dflt =
     (case get_field c k of Inl e \<Rightarrow> Inl e | Inr v \<Rightarrow> Inr (if nullish v then dflt else v))"

text \<open>The callback of \<open>map\<close> in \<open>normTimeline\<close>, its four properties evaluated in order.\<close>

definition coerce_clip :: "builtins \<Rightarrow> json \<Rightarrow> exn + clip" where
  "coerce_clip B c =
     (case get_field c ''videoId'' of Inl e \<Rightarrow> Inl e | Inr v1 \<Rightarrow>
      (case (if nullish v1 then field_or c ''id'' (JStr []) else Inr v1) of Inl e \<Rightarrow> Inl e | Inr v \<Rightarrow>
      (case js_String B v of Inl e \<Rightarrow> Inl e | Inr vid \<Rightarrow>
      (case field_or c ''start'' (JNum (Fin 0)) of Inl e \<Rightarrow> Inl e | Inr s \<Rightarrow>
      (case js_Number B s of Inl e \<Rightarrow> Inl e | Inr st \<Rightarrow>
      (case field_or c ''in'' (JNum (Fin 0)) of Inl e \<Rightarrow> Inl e | Inr i \<Rightarrow>
      (case js_Number B i of Inl e \<Rightarrow> Inl e | Inr inn \<Rightarrow>
      (case field_or c ''out'' (JNum (Fin 0)) of Inl e \<Rightarrow> Inl e | Inr ou \<Rightarrow>
      (case js_Number B ou of Inl e \<Rightarrow> Inl e | Inr outn \<Rightarrow>
         Inr \<lparr>videoId = vid, start = st, in' = inn, out = outn\<rparr>)))))))))"

fun isArray :: "json \<Rightarrow> bool" where
  "isArray (JArr xs) = True"
| "isArray _ = False"

fun elements :: "json \<Rightarrow> json list" where
  "elements (JArr xs) = xs"
| "elements _ = []"

text \<open>The \<open>map\<close> stage of \<open>normTimeline\<close>, over \<open>Array.isArray(raw) ? raw : []\<close>.\<close>

definition coerced :: "builtins \<Rightarrow> json \<Rightarrow> exn + clip list" where
  "coerced B raw = map_throwing (coerce_clip B) (if isArray raw then elements raw else [])"

definition well_typed :: "clip \<Rightarrow> bool" where
  "well_typed c = (videoId c \<noteq> [] \<and> isFinite (start c) \<and> isFinite (in' c) \<and> isFinite (out c))"

definition well_ranged :: "clip \<Rightarrow> bool" where
  "well_ranged c = (js_gt (out c) (in' c) \<and> js_ge (start c) (Fin 0))"

definition by_start :: "clip \<Rightarrow> clip \<Rightarrow> jsnum" where
  "by_start a b = js_sub (start a) (start b)"

definition normTimeline :: "builtins \<Rightarrow> json \<Rightarrow> exn + clip list" where
  "normTimeline B raw =
     (case coerced B raw of
        Inl e \<Rightarrow> Inl e
      | Inr cs \<Rightarrow> Inr (js_sort by_start (filter well_ranged (filter well_typed cs))))"

text \<open>A normalized timeline as the JavaScript value it is: an array of four-property objects.\<close>

definition clip_value :: "clip \<Rightarrow> json" where
  "clip_value c =
     JObj [(''videoId'', JStr (videoId c)), (''start'', JNum (start c)),
           (''in'', JNum (in' c)), (''out'', JNum (out c))]"

definition timeline_value :: "clip list \<Rightarrow> json" where
  "timeline_value cs = JArr (map clip_value cs)"

section \<open>Filter graph builder\<close>

text \<open>\<open>audioFlags?.[i]\<close> used as a condition: a missing array or a missing entry is falsy.\<close>

fun flag_at :: "bool list option \<Rightarrow> nat \<Rightarrow> bool" where
  "flag_at None i = False"
| "flag_at (Some fs) i = (i < length fs \<and> fs ! i)"

definition dur_of :: "clip \<Rightarrow> jsnum" where
  "dur_of c = Math_max (Fin 0) (js_sub (out c) (in' c))"

definition video_stage :: "builtins \<Rightarrow> nat \<Rightarrow> clip \<Rightarrow> string" where
  "video_stage B i c =
     ''['' @ show_nat i @ '':v]trim=start='' @ NumberToString B (in' c) @ '':duration=''
       @ NumberToString B (dur_of c) @ '',setpts=PTS-STARTPTS[v'' @ show_nat i @ '']''"

definition audio_stage :: "builtins \<Rightarrow> nat \<Rightarrow> clip \<Rightarrow> string" where
  "audio_stage B i c =
     ''['' @ show_nat i @ '':a]atrim=start='' @ NumberToString B (in' c) @ '':duration=''
       @ NumberToString B (dur_of c) @ '',asetpts=PTS-STARTPTS[a'' @ show_nat i @ '']''"

definition silence_stage :: "builtins \<Rightarrow> nat \<Rightarrow> clip \<Rightarrow> string" where
  "silence_stage B i c =
     ''aevalsrc=0:d='' @ NumberToString B (dur_of c) @ ''[a'' @ show_nat i @ '']''"

text \<open>
  One iteration of the loop of \<open>buildFilterForConcat\<close>: the state is the pair of the
  arrays \<open>parts\<close> and \<open>inputs\<close>, and \<open>push\<close> appends.
\<close>

definition concat_step ::
  "builtins \<Rightarrow> clip list \<Rightarrow> bool list option \<Rightarrow> nat \<Rightarrow> string list \<times> string list
     \<Rightarrow> string list \<times> string list" where
  "concat_step B clips audioFlags i st =
     (let c = clips ! i;
          parts1 = fst st @ [video_stage B i c];
          parts2 = (if flag_at audioFlags i then parts1 @ [audio_stage B i c]
                    else parts1 @ [silence_stage B i c]);
          inputs = snd st @ [''[v'' @ show_nat i @ '']'', ''[a'' @ show_nat i @ '']'']
      in (parts2, inputs))"

definition concat_loop ::
  "builtins \<Rightarrow> clip list \<Rightarrow> bool list option \<Rightarrow> string list \<times> string list" where
  "concat_loop B clips audioFlags =
     fold (concat_step B clips audioFlags) [0..<length clips] ([], [])"

definition buildFilterParts :: "builtins \<Rightarrow> clip list \<Rightarrow> bool list option \<Rightarrow> string list" where
  "buildFilterParts B clips audioFlags =
     (let (parts, inputs) = concat_loop B clips audioFlags
      in parts @ [js_join [] inputs @ ''concat=n='' @ show_nat (length clips)
                    @ '':v=1:a=1[vout][aout]''])"

definition buildFilterForConcat :: "builtins \<Rightarrow> clip list \<Rightarrow> bool list option \<Rightarrow> string" where
  "buildFilterForConcat B clips audioFlags = js_join '';'' (buildFilterParts B clips audioFlags)"




section \<open>Export orchestrator\<close>

text \<open>What \<open>res.status(n).json(v)\<close> sends; \<open>res.json(v)\<close> sends it with status 200.\<close>

datatype response = Response (status: nat) (body: json)

text \<open>
  What the request does to the outside, in order: the batch query for the clip ids, each
  download (bucket, key, local path), each probe, the console output, the encoder run with
  its arguments, the upload (bucket, key, file, content type), the insert (its scalar
  parameters as text, then the tags), and each call of \<open>fs.rmSync\<close> on the scratch directory.
\<close>

datatype event =
    Query "string list"
  | Download string string string
  | Probe string
  | ConsoleLog string
  | Encode "string list"
  | Upload string string string string
  | Insert "string list" "string list"
  | ConsoleError exn
  | RmSync string

text \<open>The paths that exist on the local disk, and the events so far.\<close>

record world =
  files :: "string list"
  trace :: "event list"

text \<open>
  How one download goes: \<open>s3.send\<close> throws, the answer has no body, the copy to the local
  file throws, or the file is stored.
\<close>

datatype s3_outcome = SendFailed exn | NoBody | PipelineFailed exn | Stored

text \<open>
  The collaborators as this request meets them: the environment variable, the file system
  calls (\<open>Some e\<close>: the call throws \<open>e\<close>), the metadata store, the object store, the
  spawned processes, the clock and the random suffix. A collaborator answers the same call
  the same way throughout the request.
\<close>

record env =
  S3_UPLOADS_BUCKET :: "string option"
  mkdtempSync :: "exn + string"
  mkdirSync :: "string \<Rightarrow> exn option"
  rmSync :: "string \<Rightarrow> exn option"
  pool_select :: "string list \<Rightarrow> exn + json list"
  s3_send :: "string \<Rightarrow> string \<Rightarrow> s3_outcome"
  spawnProcess :: "string \<Rightarrow> string list \<Rightarrow> proc_outcome"
  uploadFileToS3 :: "string \<Rightarrow> string \<Rightarrow> string \<Rightarrow> string \<Rightarrow> exn option"
  pool_insert :: "string list \<Rightarrow> string list \<Rightarrow> exn + json list"
  Date_now :: nat
  randomHex :: string

text \<open>\<open>Number(req.user?.id)\<close>, read before the scratch directory is made, and \<open>req.body\<close>.\<close>

record request =
  userId :: jsnum
  req_body :: json

text \<open>
  A piece of the handler body either throws, or returns the response from the handler, or
  goes on with a value; it may change the world in each case.
\<close>

datatype 'a step = Throw exn | Return response | Continue 'a

type_synonym 'a action = "world \<Rightarrow> 'a step \<times> world"

definition then_do :: "'a action \<Rightarrow> ('a \<Rightarrow> 'b action) \<Rightarrow> 'b action" where
  "then_do m f w =
     (case m w of
        (Throw e, w') \<Rightarrow> (Throw e, w')
      | (Return r, w') \<Rightarrow> (Return r, w')
      | (Continue x, w') \<Rightarrow> f x w')"

definition attempt :: "exn + 'a \<Rightarrow> 'a action" where
  "attempt r w = (case r of Inl e \<Rightarrow> (Throw e, w) | Inr x \<Rightarrow> (Continue x, w))"

definition emit :: "event \<Rightarrow> unit action" where
  "emit ev w = (Continue (), w\<lparr>trace := trace w @ [ev]\<rparr>)"

definition create :: "string \<Rightarrow> unit action" where
  "create p w = (Continue (), w\<lparr>files := files w @ [p]\<rparr>)"

definition respond :: "response \<Rightarrow> 'a action" where
  "respond r w = (Return r, w)"

text \<open>\<open>path.join\<close> of a directory and a name with nothing to normalize.\<close>

definition path_join :: "string \<Rightarrow> string \<Rightarrow> string" where
  "path_join a b = a @ ''/'' @ b"

text \<open>The directory itself and everything below it.\<close>

definition inside :: "string \<Rightarrow> string \<Rightarrow> bool" where
  "inside dir p = (p = dir \<or> prefix (dir @ ''/'') p)"

text \<open>
  \<open>cleanup\<close>: the recursive, forced \<open>fs.rmSync\<close> in a \<open>try\<close> whose \<open>catch\<close> is empty. When
  the call throws, the model leaves the files as they were.
\<close>

definition cleanup :: "env \<Rightarrow> string \<Rightarrow> unit action" where
  "cleanup E tmpRoot w =
     (case rmSync E tmpRoot of
        None \<Rightarrow> (Continue (), w\<lparr>files := filter (\<lambda>p. \<not> inside tmpRoot p) (files w),
                                 trace := trace w @ [RmSync tmpRoot]\<rparr>)
      | Some e \<Rightarrow> (Continue (), w\<lparr>trace := trace w @ [RmSync tmpRoot]\<rparr>))"

definition error_body :: "string \<Rightarrow> json" where
  "error_body msg = JObj [(''error'', JStr msg)]"

text \<open>\<open>cleanup(); return res.status(st).json({ error: msg })\<close>.\<close>

definition fail :: "env \<Rightarrow> string \<Rightarrow> nat \<Rightarrow> string \<Rightarrow> 'a action" where
  "fail E tmpRoot st msg = then_do (cleanup E tmpRoot) (\<lambda>_. respond (Response st (error_body msg)))"

text \<open>The destructuring of \<open>req.body || {}\<close>; a default applies to \<open>undefined\<close> only.\<close>

record fields =
  title :: json
  description :: json
  tags :: json
  visibility :: json
  timelineName :: json
  timeline :: json

definition with_default :: "json \<Rightarrow> string \<Rightarrow> json \<Rightarrow> exn + json" where
  "with_default b k dflt =
     (case get_field b k of Inl e \<Rightarrow> Inl e | Inr v \<Rightarrow> Inr (if v = JUndefined then dflt else v))"

definition destructure :: "json \<Rightarrow> exn + fields" where
  "destructure b0 =
     (let b = (if truthy b0 then b0 else JObj []) in
      case get_field b ''title'' of Inl e \<Rightarrow> Inl e | Inr t \<Rightarrow>
      (case with_default b ''description'' (JStr []) of Inl e \<Rightarrow> Inl e | Inr d \<Rightarrow>
      (case with_default b ''tags'' (JStr []) of Inl e \<Rightarrow> Inl e | Inr tg \<Rightarrow>
      (case with_default b ''visibility'' (JStr ''public'') of Inl e \<Rightarrow> Inl e | Inr v \<Rightarrow>
      (case with_default b ''timelineName'' (JStr ''Timeline'') of Inl e \<Rightarrow> Inl e | Inr tn \<Rightarrow>
      (case get_field b ''timeline'' of Inl e \<Rightarrow> Inl e | Inr tline \<Rightarrow>
         Inr \<lparr>title = t, description = d, tags = tg, visibility = v, timelineName = tn,
              timeline = tline\<rparr>))))))"

text \<open>\<open>v || ""\<close>.\<close>

definition or_empty :: "json \<Rightarrow> json" where
  "or_empty v = (if truthy v then v else JStr [])"

text \<open>\<open>new Map(q.rows.map((r) => [String(r.id), r]))\<close>: a later row replaces an earlier one.\<close>

definition row_entry :: "builtins \<Rightarrow> json \<Rightarrow> exn + string \<times> json" where
  "row_entry B r =
     (case get_field r ''id'' of Inl e \<Rightarrow> Inl e | Inr i \<Rightarrow>
      (case js_String B i of Inl e \<Rightarrow> Inl e | Inr k \<Rightarrow> Inr (k, r)))"

definition new_Map :: "('k \<times> 'v) list \<Rightarrow> ('k \<rightharpoonup> 'v)" where
  "new_Map kvs = fold (\<lambda>kv m. m(fst kv \<mapsto> snd kv)) kvs Map.empty"

definition index_rows :: "builtins \<Rightarrow> json list \<Rightarrow> exn + (string \<rightharpoonup> json)" where
  "index_rows B rows =
     (case map_throwing (row_entry B) rows of Inl e \<Rightarrow> Inl e | Inr kvs \<Rightarrow> Inr (new_Map kvs))"

text \<open>The loop that rejects the first clip whose id has no row.\<close>

fun check_known :: "env \<Rightarrow> string \<Rightarrow> (string \<rightharpoonup> json) \<Rightarrow> clip list \<Rightarrow> unit action" where
  "check_known E tmpRoot byId [] = attempt (Inr ())"
| "check_known E tmpRoot byId (c # cs) =
     (if byId (videoId c) = None
      then fail E tmpRoot 400 (''Unknown clip videoId '' @ videoId c)
      else check_known E tmpRoot byId cs)"

text \<open>\<open>downloadS3ToFile\<close>; the write stream has made the local file once the copy starts.\<close>

definition downloadS3ToFile :: "env \<Rightarrow> string \<Rightarrow> string \<Rightarrow> string \<Rightarrow> string action" where
  "downloadS3ToFile E bucket key outPath =
     then_do (emit (Download bucket key outPath)) (\<lambda>_.
       case s3_send E bucket key of
         SendFailed e \<Rightarrow> attempt (Inl e)
       | NoBody \<Rightarrow> attempt (Inl (Error (''S3 download failed for '' @ key)))
       | PipelineFailed e \<Rightarrow> then_do (create outPath) (\<lambda>_. attempt (Inl e))
       | Stored \<Rightarrow> then_do (create outPath) (\<lambda>_. attempt (Inr outPath)))"

text \<open>The download loop, \<open>i\<close> counting the clips and \<open>inputPaths\<close> collecting the local paths.\<close>

fun download_all ::
  "builtins \<Rightarrow> env \<Rightarrow> string \<Rightarrow> string \<Rightarrow> (string \<rightharpoonup> json) \<Rightarrow> clip list \<Rightarrow> nat \<Rightarrow> string list
     \<Rightarrow> string list action" where
  "download_all B E tmpRoot bucket byId [] i inputPaths = attempt (Inr inputPaths)"
| "download_all B E tmpRoot bucket byId (c # cs) i inputPaths =
     then_do (attempt (get_field (case byId (videoId c) of None \<Rightarrow> JUndefined | Some r \<Rightarrow> r)
                         ''filename'')) (\<lambda>fn.
     then_do (attempt (js_String B (or_empty fn))) (\<lambda>key.
       if key = [] then fail E tmpRoot 400 (''Missing filename for '' @ videoId c)
       else
         then_do (downloadS3ToFile E bucket key
                    (path_join (path_join tmpRoot ''inputs'')
                       (''src-'' @ show_nat i @ ''-'' @ videoId c @ ''.mp4''))) (\<lambda>localPath.
         download_all B E tmpRoot bucket byId cs (i + 1) (inputPaths @ [localPath]))))"

text \<open>\<open>Promise.all(inputPaths.map((p) => hasAudioStream(p)))\<close>, the results in the order of the paths.\<close>

fun probe_all :: "env \<Rightarrow> string list \<Rightarrow> bool list action" where
  "probe_all E [] = attempt (Inr [])"
| "probe_all E (p # ps) =
     then_do (emit (Probe p)) (\<lambda>_.
     then_do (attempt (hasAudioStream (spawnProcess E) p)) (\<lambda>b.
     then_do (probe_all E ps) (\<lambda>bs. attempt (Inr (b # bs)))))"

definition encode_args :: "string list \<Rightarrow> string \<Rightarrow> string \<Rightarrow> string list" where
  "encode_args inputPaths graph outPath =
     concat (map (\<lambda>p. [''-i'', p]) inputPaths)
       @ [''-y'', ''-hide_banner'', ''-loglevel'', ''error'', ''-filter_complex'', graph,
          ''-map'', ''[vout]'', ''-map'', ''[aout]'', ''-c:v'', ''libx264'', ''-preset'', ''veryfast'',
          ''-crf'', ''22'', ''-c:a'', ''aac'', ''-b:a'', ''128k'', ''-movflags'', ''+faststart'', outPath]"

text \<open>The visibility, lowercased, when it is one of the three allowed; \<open>public\<close> otherwise.\<close>

definition chosen_visibility :: "builtins \<Rightarrow> json \<Rightarrow> exn + string" where
  "chosen_visibility B v =
     (case js_String B v of
        Inl e \<Rightarrow> Inl e
      | Inr s \<Rightarrow> Inr (if js_toLowerCase s \<in> set [''public'', ''private'', ''unlisted'']
                      then js_toLowerCase s else ''public''))"

text \<open>The parameters of the insert, evaluated in the order of the source.\<close>

definition insert_params ::
  "builtins \<Rightarrow> jsnum \<Rightarrow> fields \<Rightarrow> string \<Rightarrow> exn + string list \<times> string list" where
  "insert_params B uid f uploadKey =
     (case chosen_visibility B (visibility f) of Inl e \<Rightarrow> Inl e | Inr vis \<Rightarrow>
      (case tagsArr B (tags f) of Inl e \<Rightarrow> Inl e | Inr tgs \<Rightarrow>
      (case js_String B (title f) of Inl e \<Rightarrow> Inl e | Inr t \<Rightarrow>
      (case js_String B (or_empty (description f)) of Inl e \<Rightarrow> Inl e | Inr d \<Rightarrow>
         Inr ([NumberToString B uid, js_trim t, js_trim d, vis, uploadKey], tgs)))))"

text \<open>
  The end of the \<open>try\<close> block: \<open>cleanup()\<close>, then the response, whose \<open>ins.rows[0].id\<close> throws
  when the insert returned no row.
\<close>

definition finish :: "env \<Rightarrow> string \<Rightarrow> json list \<Rightarrow> json \<Rightarrow> response action" where
  "finish E tmpRoot rows tn =
     then_do (cleanup E tmpRoot) (\<lambda>_.
     then_do (attempt (get_field (case rows of [] \<Rightarrow> JUndefined | r # _ \<Rightarrow> r) ''id'')) (\<lambda>vid.
       respond (Response 200 (JObj [(''ok'', JBool True), (''videoId'', vid), (''timelineName'', tn)]))))"

text \<open>The body of the \<open>try\<close> block from the batch query on.\<close>

definition export_job :: 
  "builtins \<Rightarrow> env \<Rightarrow> request \<Rightarrow> string \<Rightarrow> fields \<Rightarrow> clip list \<Rightarrow> string \<Rightarrow> response action" where
  "export_job B E req tmpRoot f clips bucket =
     then_do (emit (Query (map videoId clips))) (\<lambda>_.
     then_do (attempt (pool_select E (map videoId clips))) (\<lambda>rows.
     then_do (attempt (index_rows B rows)) (\<lambda>byId.
     then_do (check_known E tmpRoot byId clips) (\<lambda>_.
     then_do (download_all B E tmpRoot bucket byId clips 0 []) (\<lambda>inputPaths.
     let outName = ''export-'' @ show_nat (Date_now E) @ ''-'' @ randomHex E @ ''.mp4'';
         outPath = path_join (path_join tmpRoot ''out'') outName
     in
     then_do (probe_all E inputPaths) (\<lambda>audioFlags.
     let graph = buildFilterForConcat B clips (Some audioFlags) in
     then_do (emit (ConsoleLog ([CHR 0x0A] @ ''=== FFMPEG FILTER ==='' @ [CHR 0x0A]))) (\<lambda>_.
     then_do (emit (ConsoleLog graph)) (\<lambda>_.
     then_do (emit (ConsoleLog ([CHR 0x0A] @ ''====================='' @ [CHR 0x0A]))) (\<lambda>_.
     then_do (emit (Encode (encode_args inputPaths graph outPath))) (\<lambda>_.
     then_do (attempt (runCmd (spawnProcess E) ''ffmpeg'' (encode_args inputPaths graph outPath))) (\<lambda>_.
     then_do (create outPath) (\<lambda>_.
     let uploadKey = ''uploads/'' @ NumberToString B (userId req) @ ''/'' @ outName in
     then_do (emit (Upload bucket uploadKey outPath ''video/mp4'')) (\<lambda>_.
     then_do (attempt (case uploadFileToS3 E bucket uploadKey outPath ''video/mp4'' of
                         None \<Rightarrow> Inr () | Some e \<Rightarrow> Inl e)) (\<lambda>_.
     then_do (attempt (insert_params B (userId req) f uploadKey)) (\<lambda>ps.
     then_do (emit (Insert (fst ps) (snd ps))) (\<lambda>_.
     then_do (attempt (pool_insert E (fst ps) (snd ps))) (\<lambda>rows'.
       finish E tmpRoot rows' (timelineName f))))))))))))))))))"

text \<open>The body of the \<open>try\<close> block.\<close>

definition publish :: "builtins \<Rightarrow> env \<Rightarrow> request \<Rightarrow> string \<Rightarrow> response action" where
  "publish B E req tmpRoot =
     then_do (attempt (destructure (req_body req))) (\<lambda>f.
     then_do (attempt (normTimeline B (timeline f))) (\<lambda>clips.
     then_do (attempt (js_String B (or_empty (title f)))) (\<lambda>t.
       if js_trim t = [] then fail E tmpRoot 400 ''Title is required''
       else if clips = [] then fail E tmpRoot 400 ''Timeline is empty''
       else (case S3_UPLOADS_BUCKET E of
               None \<Rightarrow> fail E tmpRoot 500 ''Missing env S3_UPLOADS_BUCKET''
             | Some bucket \<Rightarrow>
                 if bucket = [] then fail E tmpRoot 500 ''Missing env S3_UPLOADS_BUCKET''
                 else export_job B E req tmpRoot f clips bucket))))"

text \<open>
  The \<open>try\<close> with its \<open>catch\<close>: \<open>console.error\<close>, \<open>cleanup()\<close>, and status 500 with
  \<open>e?.message || "Failed to publish generated video"\<close>.
\<close>

definition guarded :: "builtins \<Rightarrow> env \<Rightarrow> request \<Rightarrow> string \<Rightarrow> world \<Rightarrow> response \<times> world" where
  "guarded B E req tmpRoot w =
     (case publish B E req tmpRoot w of
        (Return r, w') \<Rightarrow> (r, w')
      | (Continue r, w') \<Rightarrow> (r, w')
      | (Throw e, w') \<Rightarrow>
          (Response 500 (error_body (if message e \<noteq> [] then message e
                                     else ''Failed to publish generated video'')),
           snd (then_do (emit (ConsoleError e)) (\<lambda>_. cleanup E tmpRoot) w')))"

text \<open>
  The handler. The three directories are made before the \<open>try\<close>: an exception there
  leaves the handler with no response sent and no cleanup.
\<close>

definition handler :: "builtins \<Rightarrow> env \<Rightarrow> request \<Rightarrow> world \<Rightarrow> response option \<times> world" where
  "handler B E req w =
     (case mkdtempSync E of
        Inl e \<Rightarrow> (None, w)
      | Inr tmpRoot \<Rightarrow>
          (case mkdirSync E (path_join tmpRoot ''inputs'') of
             Some e \<Rightarrow> (None, w\<lparr>files := files w @ [tmpRoot]\<rparr>)
           | None \<Rightarrow>
               (case mkdirSync E (path_join tmpRoot ''out'') of
                  Some e \<Rightarrow> (None, w\<lparr>files := files w @ [tmpRoot, path_join tmpRoot ''inputs'']\<rparr>)
                | None \<Rightarrow>
                    (case guarded B E req tmpRoot
                            (w\<lparr>files := files w @ [tmpRoot, path_join tmpRoot ''inputs'',
                                                    path_join tmpRoot ''out'']\<rparr>) of
                       (r, w') \<Rightarrow> (Some r, w')))))"

section \<open>Notions used to state the properties\<close>

text \<open>The sort key of a clip whose \<open>start\<close> is finite.\<close>

definition key_of :: "clip \<Rightarrow> real" where
  "key_of c = (case start c of Fin x \<Rightarrow> x | _ \<Rightarrow> 0)"

text \<open>What the two \<open>filter\<close> stages keep.\<close>

definition survivors :: "clip list \<Rightarrow> clip list" where
  "survivors cs = filter well_ranged (filter well_typed cs)"

text \<open>
  The final stage in the words of the specification: the labels \<open>[v0][a0][v1][a1]...\<close>
  in strict pairs, then \<open>concat\<close> declaring N segments with one video and one audio stream
  each, then the output labels.
\<close>

definition alternating_labels :: "nat \<Rightarrow> string" where
  "alternating_labels N =
     concat (map (\<lambda>i. ''[v'' @ show_nat i @ '']'' @ ''[a'' @ show_nat i @ '']'') [0..<N])"

definition concat_stage :: "nat \<Rightarrow> string" where
  "concat_stage N =
     alternating_labels N @ ''concat=n='' @ show_nat N @ '':v=1:a=1[vout][aout]''"

text \<open>The two stages of each of the first \<open>n\<close> clips, in order.\<close>

definition clip_stages :: "builtins \<Rightarrow> clip list \<Rightarrow> bool list option \<Rightarrow> nat \<Rightarrow> string list" where
  "clip_stages B clips fl n =
     concat (map (\<lambda>i. [video_stage B i (clips ! i),
                        if flag_at fl i then audio_stage B i (clips ! i)
                        else silence_stage B i (clips ! i)]) [0..<n])"

text \<open>
  Values for the examples. The conversions are the host's on what the examples contain:
  integers below \<open>10\<^sup>2\<^sup>1\<close> and the non-finite numbers are printed, and no string is parsed
  but the empty one.
\<close>

definition example_builtins :: builtins where
  "example_builtins =
     \<lparr>NumberToString = (\<lambda>n. case n of
          NaN \<Rightarrow> ''NaN'' | PosInf \<Rightarrow> ''Infinity'' | NegInf \<Rightarrow> ''-Infinity''
        | Fin x \<Rightarrow> (if x < 0 then ''-'' else []) @ show_nat (nat \<lfloor>\<bar>x\<bar>\<rfloor>)),
      StringToNumber = (\<lambda>s. if s = [] then Fin 0 else NaN)\<rparr>"

text \<open>The two-clip timeline of the end-to-end scenario, raw and normalized.\<close>

definition example_timeline :: json where
  "example_timeline =
     JArr [JObj [(''videoId'', JStr ''A''), (''start'', JNum (Fin 0)), (''in'', JNum (Fin 2)), (''out'', JNum (Fin 5))],
           JObj [(''videoId'', JStr ''B''), (''start'', JNum (Fin 5)), (''in'', JNum (Fin 0)), (''out'', JNum (Fin 3))]]"

definition example_clips :: "clip list" where
  "example_clips =
     [\<lparr>videoId = ''A'', start = Fin 0, in' = Fin 2, out = Fin 5\<rparr>,
      \<lparr>videoId = ''B'', start = Fin 5, in' = Fin 0, out = Fin 3\<rparr>]"

text \<open>
  The tag list in the words of the specification: trimmed, lowercased, empty entries
  dropped, the first occurrence of each tag kept, and the result cut to 30.
\<close>

definition dedup_first :: "'a list \<Rightarrow> 'a list" where
  "dedup_first xs = rev (remdups (rev xs))"

definition spec_tag_list :: "string \<Rightarrow> string list" where
  "spec_tag_list s = take 30 (dedup_first (tag_entries s))"

text \<open>The events of a run from \<open>w\<close> to \<open>w'\<close>.\<close>

definition new_events :: "world \<Rightarrow> world \<Rightarrow> event list" where
  "new_events w w' = drop (length (trace w)) (trace w')"

text \<open>
  A run from \<open>w\<close> to \<open>w'\<close> has cleaned up: it called \<open>fs.rmSync\<close> on the scratch directory,
  and unless that call throws nothing of the directory is left.
\<close>

definition cleaned :: "env \<Rightarrow> string \<Rightarrow> world \<Rightarrow> world \<Rightarrow> bool" where
  "cleaned E dir w w' =
     (prefix (trace w) (trace w') \<and> RmSync dir \<in> set (new_events w w')
      \<and> (rmSync E dir = None \<longrightarrow> (\<forall>p \<in> set (files w'). \<not> inside dir p)))"

text \<open>Every run of the action only adds events, and has cleaned up when it returns a response.\<close>

definition exits_clean :: "env \<Rightarrow> string \<Rightarrow> 'a action \<Rightarrow> bool" where
  "exits_clean E dir m =
     (\<forall>w s w'. m w = (s, w') \<longrightarrow>
        prefix (trace w) (trace w') \<and> ((\<exists>r. s = Return r) \<longrightarrow> cleaned E dir w w'))"

text \<open>Two actions end the same way, whatever worlds they start in.\<close>

definition same_outcome :: "'a action \<Rightarrow> 'a action \<Rightarrow> bool" where
  "same_outcome m m' = (\<forall>w w'. fst (m w) = fst (m' w'))"

text \<open>
  An environment in which every step succeeds, a request for one clip of the video with
  id 7, and variants in which the store has no row, the encoder fails, and the upload fails
  with an empty message.
\<close>

definition example_env :: env where
  "example_env =
     \<lparr>S3_UPLOADS_BUCKET = Some ''media'',
      mkdtempSync = Inr ''/tmp/mytube-export-Ab12Cd'',
      mkdirSync = (\<lambda>p. None),
      rmSync = (\<lambda>p. None),
      pool_select = (\<lambda>ids. Inr [JObj [(''id'', JNum (Fin 7)), (''filename'', JStr ''uploads/1/a.mp4'')]]),
      s3_send = (\<lambda>bucket key. Stored),
      spawnProcess = (\<lambda>cmd args. Closed (Some 0) (if cmd = ''ffprobe'' then ''audio'' @ [CHR 0x0A] else []) []),
      uploadFileToS3 = (\<lambda>bucket key filePath contentType. None),
      pool_insert = (\<lambda>params tgs. Inr [JObj [(''id'', JNum (Fin 8))]]),
      Date_now = 1700000000000,
      randomHex = ''0a1b2c3d4e5f''\<rparr>"

definition example_request :: request where
  "example_request =
     \<lparr>userId = Fin 1,
      req_body = JObj [(''title'', JStr ''Cut''), (''tags'', JStr ''Funny, funny''),
                       (''timeline'', JArr [JObj [(''videoId'', JStr ''7''), (''start'', JNum (Fin 0)),
                                                   (''in'', JNum (Fin 2)), (''out'', JNum (Fin 5))]])]\<rparr>"

definition empty_world :: world where
  "empty_world = \<lparr>files = [], trace = []\<rparr>"

text \<open>The action never goes on: it returns a response or throws.\<close>

definition ends :: "'a action \<Rightarrow> bool" where
  "ends m = (\<forall>w x w'. m w \<noteq> (Continue x, w'))"


definition encode_failure_env :: env where
  "encode_failure_env =
     example_env\<lparr>spawnProcess := (\<lambda>cmd args.
        if cmd = ''ffprobe'' then Closed (Some 0) (''audio'' @ [CHR 0x0A]) []
        else Closed (Some 1) []
               ''/tmp/mytube-export-Ab12Cd/inputs/src-0-7.mp4: Invalid data found when processing input'')\<rparr>"

definition upload_failure_env :: env where
  "upload_failure_env = example_env\<lparr>uploadFileToS3 := (\<lambda>bucket key filePath contentType. Some (Error []))\<rparr>"





section \<open>Properties of the normalizer and the filter graph builder\<close>

lemma digit_mem: "d < 10 \<Longrightarrow> digit d \<in> set ''0123456789''"
  unfolding digit_def by (rule nth_mem) simp

lemma digit_neq: "d < 10 \<Longrightarrow> digit d \<noteq> CHR '';'' \<and> digit d \<noteq> CHR ''t''"
  using digit_mem[of d] by auto

lemma digit_vals: "digit 0 = CHR ''0''" "digit 1 = CHR ''1''" "digit 2 = CHR ''2''"
  unfolding digit_def by simp_all

lemma show_nat_small: "n < 10 \<Longrightarrow> show_nat n = [digit n]"
  by (simp add: show_nat.simps)

lemma show_nat_ne: "show_nat n \<noteq> []"
  by (subst show_nat.simps) simp

lemma show_nat_last: "last (show_nat n) = digit (n mod 10)"
  by (subst show_nat.simps) (simp add: show_nat_ne)

lemma show_nat_no_semi: "CHR '';'' \<notin> set (show_nat n)"
proof (induction n rule: show_nat.induct)
  case (1 n)
  show ?case
  proof (cases "n < 10")
    case True
    then show ?thesis using digit_neq[of n] by (auto simp add: show_nat_small)
  next
    case False
    then have "show_nat n = show_nat (n div 10) @ [digit (n mod 10)]"
      by (subst show_nat.simps) simp
    moreover have "digit (n mod 10) \<noteq> CHR '';''" using digit_neq[of "n mod 10"] by simp
    ultimately show ?thesis using 1 False by auto
  qed
qed

lemma js_split_ne: "js_split sep s \<noteq> []"
  by (induction s) (auto split: list.splits)

lemma js_split_nosep: "sep \<notin> set s \<Longrightarrow> js_split sep s = [s]"
  by (induction s) (auto split: list.splits)

lemma js_split_app: "js_split sep (a @ sep # b) = js_split sep a @ js_split sep b"
  by (induction a) (auto simp: js_split_ne split: list.splits)

lemma js_split_last_app: "last (js_split sep (a @ sep # b)) = last (js_split sep b)"
  by (simp add: js_split_app js_split_ne)

lemma js_join_snoc: "js_join sep (ps @ [f]) = (if ps = [] then f else js_join sep ps @ sep @ f)"
  by (induction sep ps rule: js_join.induct) auto

lemma js_join_nil_concat: "js_join [] xs = concat xs"
  by (induction "[]::string" xs rule: js_join.induct) auto

lemma concat_loop_gen:
  "n \<le> length clips \<Longrightarrow>
   fold (concat_step B clips fl) [0..<n] (ps, ins) =
     (ps @ concat (map (\<lambda>i. [video_stage B i (clips ! i),
                               if flag_at fl i then audio_stage B i (clips ! i)
                               else silence_stage B i (clips ! i)]) [0..<n]),
      ins @ concat (map (\<lambda>i. [''[v'' @ show_nat i @ '']'', ''[a'' @ show_nat i @ '']'']) [0..<n]))"
  by (induction n) (auto simp: concat_step_def Let_def)

lemma insert_by_insort:
  "isFinite (start x) \<Longrightarrow> list_all (\<lambda>c. isFinite (start c)) ys \<Longrightarrow>
   insert_by by_start x ys = insort_key key_of x ys"
proof (induction ys)
  case Nil
  then show ?case by simp
next
  case (Cons y ys)
  obtain a where a: "start x = Fin a" using Cons.prems(1) by (cases "start x") auto
  obtain b where b: "start y = Fin b" using Cons.prems(2) by (cases "start y") auto
  show ?case using Cons a b by (auto simp: by_start_def key_of_def)
qed

lemma list_all_insort:
  "P x \<Longrightarrow> list_all P ys \<Longrightarrow> list_all P (insort_key f x ys)"
  by (induction ys) auto

lemma js_sort_sort_key:
  "list_all (\<lambda>c. isFinite (start c)) xs \<Longrightarrow> js_sort by_start xs = sort_key key_of xs"
proof (induction xs)
  case Nil
  then show ?case by (simp add: js_sort_def)
next
  case (Cons x xs)
  then have ih: "js_sort by_start xs = sort_key key_of xs" by simp
  have fin: "list_all (\<lambda>c. isFinite (start c)) (sort_key key_of xs)"
    using Cons.prems by (simp add: list_all_iff)
  have "js_sort by_start (x # xs) = insert_by by_start x (js_sort by_start xs)"
    by (simp add: js_sort_def)
  also have "\<dots> = insort_key key_of x (sort_key key_of xs)"
    using insert_by_insort[OF _ fin, of x] Cons.prems ih by simp
  finally show ?case by simp
qed

lemma insert_by_sorted:
  "sorted_wrt (\<lambda>a b. \<not> js_gt (cmp a b) (Fin 0)) (x # xs) \<Longrightarrow> insert_by cmp x xs = x # xs"
  by (cases xs) auto

lemma js_sort_sorted:
  "sorted_wrt (\<lambda>a b. \<not> js_gt (cmp a b) (Fin 0)) xs \<Longrightarrow> js_sort cmp xs = xs"
proof (induction xs)
  case Nil
  then show ?case by (simp add: js_sort_def)
next
  case (Cons x xs)
  then have "js_sort cmp xs = xs" by simp
  then have "js_sort cmp (x # xs) = insert_by cmp x xs" by (simp add: js_sort_def)
  then show ?case using insert_by_sorted[OF Cons.prems] by simp
qed

lemma survivors_finite: "list_all (\<lambda>c. isFinite (start c)) (survivors cs)"
  by (auto simp: survivors_def list_all_iff well_typed_def)

lemma norm_sort_key:
  "coerced B raw = Inr ys \<Longrightarrow> normTimeline B raw = Inr (sort_key key_of (survivors ys))"
  using js_sort_sort_key[OF survivors_finite, of ys]
  by (simp add: normTimeline_def survivors_def)

lemma key_le:
  "isFinite (start a) \<Longrightarrow> isFinite (start b) \<Longrightarrow>
   (key_of a \<le> key_of b) = (\<not> js_gt (start a) (start b))"
  by (cases "start a"; cases "start b") (auto simp: key_of_def)

lemma key_eq:
  "isFinite (start a) \<Longrightarrow> isFinite (start b) \<Longrightarrow> (key_of a = key_of b) = (start a = start b)"
  by (cases "start a"; cases "start b") (auto simp: key_of_def)

lemma by_start_le:
  "isFinite (start a) \<Longrightarrow> isFinite (start b) \<Longrightarrow>
   js_gt (by_start a b) (Fin 0) = js_gt (start a) (start b)"
  by (cases "start a"; cases "start b") (auto simp: by_start_def)

lemma key_fin: "isFinite (start c) \<Longrightarrow> (key_of c = r) = (start c = Fin r)"
  by (cases "start c") (auto simp: key_of_def)

lemma nofin:
  "\<not> isFinite k \<Longrightarrow> (\<And>c. c \<in> set xs \<Longrightarrow> isFinite (start c)) \<Longrightarrow>
   filter (\<lambda>c. start c = k) xs = []"
  by (induction xs) auto

lemma sorted_wrt_cong_set:
  "(\<And>a b. a \<in> set xs \<Longrightarrow> b \<in> set xs \<Longrightarrow> P a b = Q a b) \<Longrightarrow> sorted_wrt P xs = sorted_wrt Q xs"
  by (induction xs) auto

lemma normTimeline_props:
  assumes "normTimeline B raw = Inr cs"
  shows "\<exists>ys. coerced B raw = Inr ys
          \<and> (\<forall>c \<in> set cs. videoId c \<noteq> [] \<and> isFinite (start c) \<and> isFinite (in' c) \<and> isFinite (out c)
                 \<and> js_gt (out c) (in' c) \<and> js_ge (start c) (Fin 0))
          \<and> mset cs = mset (filter well_ranged (filter well_typed ys))
          \<and> sorted_wrt (\<lambda>a b. \<not> js_gt (start a) (start b)) cs
          \<and> (\<forall>k. filter (\<lambda>c. start c = k) cs
                 = filter (\<lambda>c. start c = k) (filter well_ranged (filter well_typed ys)))"
proof -
  from assms obtain ys where ys: "coerced B raw = Inr ys"
    by (auto simp: normTimeline_def split: sum.splits)
  let ?S = "survivors ys"
  have cs: "cs = sort_key key_of ?S" using norm_sort_key[OF ys] assms by simp
  have setcs: "set cs = set ?S" using cs by simp
  have fin: "\<And>c. c \<in> set cs \<Longrightarrow> isFinite (start c)"
    using setcs survivors_finite[of ys] by (simp add: list_all_iff)
  have inv: "\<forall>c \<in> set cs. videoId c \<noteq> [] \<and> isFinite (start c) \<and> isFinite (in' c) \<and> isFinite (out c)
                 \<and> js_gt (out c) (in' c) \<and> js_ge (start c) (Fin 0)"
    using setcs by (auto simp: survivors_def well_typed_def well_ranged_def)
  have ms: "mset cs = mset ?S" using cs by simp
  have "sorted (map key_of cs)" using cs by simp
  then have "sorted_wrt (\<lambda>a b. key_of a \<le> key_of b) cs" by (simp add: sorted_map)
  then have srt: "sorted_wrt (\<lambda>a b. \<not> js_gt (start a) (start b)) cs"
    using sorted_wrt_cong_set[of cs "\<lambda>a b. key_of a \<le> key_of b" "\<lambda>a b. \<not> js_gt (start a) (start b)"]
      key_le fin by simp
  have stab: "filter (\<lambda>c. start c = k) cs = filter (\<lambda>c. start c = k) ?S" for k
  proof (cases k)
    case (Fin r)
    have "filter (\<lambda>c. key_of c = r) cs = filter (\<lambda>c. key_of c = r) ?S"
      unfolding cs by (rule sort_key_stable)
    moreover have "filter (\<lambda>c. key_of c = r) cs = filter (\<lambda>c. start c = k) cs"
      by (rule filter_cong[OF refl]) (simp add: key_fin fin Fin)
    moreover have "filter (\<lambda>c. key_of c = r) ?S = filter (\<lambda>c. start c = k) ?S"
      by (rule filter_cong[OF refl]) (simp add: key_fin fin setcs[symmetric] Fin)
    ultimately show ?thesis by simp
  qed (use fin setcs nofin[of k cs] nofin[of k ?S] in simp_all)
  show ?thesis using ys inv ms srt stab unfolding survivors_def by blast
qed

text \<open>
  Claim C2. Whatever the raw input, an output of the normalizer holds no clip with an empty
  \<open>videoId\<close>, a non-finite \<open>start\<close>, \<open>in\<close> or \<open>out\<close>, \<open>out <= in\<close> or \<open>start < 0\<close>;
  it holds exactly the coerced elements that pass the two filters, ascending by \<open>start\<close>,
  clips of equal \<open>start\<close> in their original relative order; and an input that is not an
  array gives the empty timeline. (The normalizer throws only on an array: on a \<open>null\<close>
  element, or on an object that cannot be converted to a string.)
\<close>

theorem normTimeline_output:
  "(isArray raw \<or> normTimeline B raw = Inr [])
   \<and> (\<forall>cs. normTimeline B raw = Inr cs \<longrightarrow>
        (\<exists>ys. coerced B raw = Inr ys
          \<and> (\<forall>c \<in> set cs. videoId c \<noteq> [] \<and> isFinite (start c) \<and> isFinite (in' c) \<and> isFinite (out c)
                 \<and> js_gt (out c) (in' c) \<and> js_ge (start c) (Fin 0))
          \<and> mset cs = mset (filter well_ranged (filter well_typed ys))
          \<and> sorted_wrt (\<lambda>a b. \<not> js_gt (start a) (start b)) cs
          \<and> (\<forall>k. filter (\<lambda>c. start c = k) cs
                 = filter (\<lambda>c. start c = k) (filter well_ranged (filter well_typed ys)))))"
proof -
  have "isArray raw \<or> normTimeline B raw = Inr []"
    by (cases raw) (simp_all add: normTimeline_def coerced_def js_sort_def)
  then show ?thesis using normTimeline_props[of B raw] by blast
qed

text \<open>
  Three clips in the order 5, 0, 0 with an invalid one (\<open>out <= in\<close>) between them: the
  invalid clip is dropped, the two clips starting at 0 keep their order.
\<close>

theorem normTimeline_output_witness:
  "normTimeline example_builtins
     (JArr [JObj [(''videoId'', JStr ''B''), (''start'', JNum (Fin 5)), (''in'', JNum (Fin 0)), (''out'', JNum (Fin 3))],
            JObj [(''videoId'', JStr ''X''), (''start'', JNum (Fin 1)), (''in'', JNum (Fin 4)), (''out'', JNum (Fin 4))],
            JObj [(''id'', JStr ''A''), (''in'', JNum (Fin 2)), (''out'', JNum (Fin 5))],
            JObj [(''videoId'', JStr ''C''), (''start'', JNum (Fin 0)), (''out'', JNum (Fin 1))]])
   = Inr [\<lparr>videoId = ''A'', start = Fin 0, in' = Fin 2, out = Fin 5\<rparr>,
          \<lparr>videoId = ''C'', start = Fin 0, in' = Fin 0, out = Fin 1\<rparr>,
          \<lparr>videoId = ''B'', start = Fin 5, in' = Fin 0, out = Fin 3\<rparr>]
   \<and> normTimeline example_builtins (JStr ''abc'') = Inr []
   \<and> sorted_wrt (\<lambda>a b. \<not> js_gt (start a) (start b))
        [\<lparr>videoId = ''A'', start = Fin 0, in' = Fin 2, out = Fin 5\<rparr>,
         \<lparr>videoId = ''C'', start = Fin 0, in' = Fin 0, out = Fin 1\<rparr>,
         \<lparr>videoId = ''B'', start = Fin 5, in' = Fin 0, out = Fin 3\<rparr>]"
proof -
  let ?raw = "JArr [JObj [(''videoId'', JStr ''B''), (''start'', JNum (Fin 5)), (''in'', JNum (Fin 0)), (''out'', JNum (Fin 3))],
            JObj [(''videoId'', JStr ''X''), (''start'', JNum (Fin 1)), (''in'', JNum (Fin 4)), (''out'', JNum (Fin 4))],
            JObj [(''id'', JStr ''A''), (''in'', JNum (Fin 2)), (''out'', JNum (Fin 5))],
            JObj [(''videoId'', JStr ''C''), (''start'', JNum (Fin 0)), (''out'', JNum (Fin 1))]]"
  let ?cs = "[\<lparr>videoId = ''A'', start = Fin 0, in' = Fin 2, out = Fin 5\<rparr>,
          \<lparr>videoId = ''C'', start = Fin 0, in' = Fin 0, out = Fin 1\<rparr>,
          \<lparr>videoId = ''B'', start = Fin 5, in' = Fin 0, out = Fin 3\<rparr>]"
  have n: "normTimeline example_builtins ?raw = Inr ?cs"
    by (simp add: normTimeline_def coerced_def coerce_clip_def field_or_def well_typed_def
        well_ranged_def js_sort_def by_start_def)
  have e: "normTimeline example_builtins (JStr ''abc'') = Inr []"
    using normTimeline_output[of "JStr ''abc''" example_builtins] by simp
  have "sorted_wrt (\<lambda>a b. \<not> js_gt (start a) (start b)) ?cs"
    using normTimeline_output[of ?raw example_builtins] n by blast
  then show ?thesis using n e by (intro conjI)
qed

lemma coerce_clip_value: "coerce_clip B (clip_value c) = Inr c"
  by (simp add: coerce_clip_def clip_value_def field_or_def)

lemma coerced_timeline_value: "map_throwing (coerce_clip B) (map clip_value cs) = Inr cs"
  by (induction cs) (simp_all add: coerce_clip_value)

lemma norm_timeline_value:
  "normTimeline B (timeline_value cs) = Inr (js_sort by_start (filter well_ranged (filter well_typed cs)))"
  by (simp add: normTimeline_def coerced_def timeline_value_def coerced_timeline_value)

lemma renormalize:
  assumes "normTimeline B raw = Inr cs"
  shows "normTimeline B (timeline_value cs) = Inr cs"
proof -
  from normTimeline_props[OF assms] have
    inv: "\<forall>c \<in> set cs. videoId c \<noteq> [] \<and> isFinite (start c) \<and> isFinite (in' c) \<and> isFinite (out c)
                 \<and> js_gt (out c) (in' c) \<and> js_ge (start c) (Fin 0)"
    and srt: "sorted_wrt (\<lambda>a b. \<not> js_gt (start a) (start b)) cs" by blast+
  have f: "filter well_ranged (filter well_typed cs) = cs"
    using inv by (simp add: well_typed_def well_ranged_def)
  have "sorted_wrt (\<lambda>a b. \<not> js_gt (by_start a b) (Fin 0)) cs"
    using sorted_wrt_cong_set[of cs "\<lambda>a b. \<not> js_gt (by_start a b) (Fin 0)" "\<lambda>a b. \<not> js_gt (start a) (start b)"]
      by_start_le inv srt by simp
  then have "js_sort by_start cs = cs" by (rule js_sort_sorted)
  then show ?thesis by (simp only: norm_timeline_value f)
qed

text \<open>
  Claim C9. Normalizing the result of a normalization gives that result again:
  \<open>normTimeline(normTimeline(x)) = normTimeline(x)\<close> for every raw \<open>x\<close>, an exception of
  the inner call being the outcome of both sides.
\<close>

theorem normTimeline_idempotent:
  "(case normTimeline B raw of Inl e \<Rightarrow> Inl e | Inr cs \<Rightarrow> normTimeline B (timeline_value cs))
     = normTimeline B raw"
  using renormalize[of B raw] by (cases "normTimeline B raw") simp_all

lemma concat_loop_eq:
  "concat_loop B clips fl =
     (clip_stages B clips fl (length clips),
      concat (map (\<lambda>i. [''[v'' @ show_nat i @ '']'', ''[a'' @ show_nat i @ '']'']) [0..<length clips]))"
  using concat_loop_gen[of "length clips" clips B fl "[]" "[]"]
  by (simp add: concat_loop_def clip_stages_def)

lemma labels_concat:
  "concat (concat (map (\<lambda>i. [''[v'' @ show_nat i @ '']'', ''[a'' @ show_nat i @ '']'']) [0..<n]))
     = alternating_labels n"
  by (induction n) (simp_all add: alternating_labels_def)

lemma parts_eq:
  "buildFilterParts B clips fl = clip_stages B clips fl (length clips) @ [concat_stage (length clips)]"
  using labels_concat[of "length clips"]
  by (simp add: buildFilterParts_def concat_loop_eq js_join_nil_concat concat_stage_def)

lemma clip_stages_length: "length (clip_stages B clips fl n) = 2 * n"
  by (induction n) (simp_all add: clip_stages_def)

lemma clip_stages_Suc:
  "clip_stages B clips fl (Suc n) = clip_stages B clips fl n @
     [video_stage B n (clips ! n),
      if flag_at fl n then audio_stage B n (clips ! n) else silence_stage B n (clips ! n)]"
  by (simp add: clip_stages_def)

lemma clip_stages_nth:
  "i < n \<Longrightarrow>
   clip_stages B clips fl n ! (2 * i) = video_stage B i (clips ! i) \<and>
   clip_stages B clips fl n ! (2 * i + 1) =
     (if flag_at fl i then audio_stage B i (clips ! i) else silence_stage B i (clips ! i))"
proof (induction n)
  case 0
  then show ?case by simp
next
  case (Suc n)
  show ?case
  proof (cases "i < n")
    case True
    then show ?thesis using Suc.IH
      by (simp add: clip_stages_Suc nth_append clip_stages_length)
  next
    case False
    then have "i = n" using Suc.prems by simp
    then show ?thesis
      by (simp add: clip_stages_Suc nth_append clip_stages_length)
  qed
qed

lemma parts_nth:
  "i < length clips \<Longrightarrow>
   buildFilterParts B clips fl ! (2 * i) = video_stage B i (clips ! i) \<and>
   buildFilterParts B clips fl ! (2 * i + 1) =
     (if flag_at fl i then audio_stage B i (clips ! i) else silence_stage B i (clips ! i))"
  using clip_stages_nth[of i "length clips" B clips fl]
  by (simp add: parts_eq nth_append clip_stages_length)

lemma not_final_labels: "\<not> suffix ''[vout][aout]'' (xs @ show_nat i @ '']'')"
proof
  assume "suffix ''[vout][aout]'' (xs @ show_nat i @ '']'')"
  then obtain p where "xs @ show_nat i @ '']'' = p @ ''[vout][aout]''"
    by (auto simp: suffix_def)
  then have "(xs @ show_nat i) @ '']'' = (p @ ''[vout][aou'' @ ''t'') @ '']''" by simp
  then have "xs @ show_nat i = p @ ''[vout][aou'' @ ''t''" by (simp only: append_same_eq)
  then have "last (xs @ show_nat i) = CHR ''t''" by simp
  then have "digit (i mod 10) = CHR ''t''" by (simp add: show_nat_ne show_nat_last)
  then show False using digit_neq[of "i mod 10"] by simp
qed

lemma clip_stage_not_final:
  "s \<in> set (clip_stages B clips fl n) \<Longrightarrow> \<not> suffix ''[vout][aout]'' s"
proof (induction n)
  case 0
  then show ?case by (simp add: clip_stages_def)
next
  case (Suc n)
  have v: "\<not> suffix ''[vout][aout]'' (video_stage B n c)" for c
    using not_final_labels[of "''['' @ show_nat n @ '':v]trim=start='' @ NumberToString B (in' c) @ '':duration=''
       @ NumberToString B (dur_of c) @ '',setpts=PTS-STARTPTS[v''" n]
    by (simp add: video_stage_def)
  have a: "\<not> suffix ''[vout][aout]'' (audio_stage B n c)" for c
    using not_final_labels[of "''['' @ show_nat n @ '':a]atrim=start='' @ NumberToString B (in' c) @ '':duration=''
       @ NumberToString B (dur_of c) @ '',asetpts=PTS-STARTPTS[a''" n]
    by (simp add: audio_stage_def)
  have s: "\<not> suffix ''[vout][aout]'' (silence_stage B n c)" for c
    using not_final_labels[of "''aevalsrc=0:d='' @ NumberToString B (dur_of c) @ ''[a''" n]
    by (simp add: silence_stage_def)
  from Suc show ?case using v a s by (auto simp: clip_stages_Suc split: if_splits)
qed

lemma alternating_no_semi: "CHR '';'' \<notin> set (alternating_labels n)"
  by (induction n) (simp_all add: alternating_labels_def show_nat_no_semi)

lemma concat_stage_no_semi: "CHR '';'' \<notin> set (concat_stage n)"
  by (simp add: concat_stage_def alternating_no_semi show_nat_no_semi)

lemma last_split_join:
  "CHR '';'' \<notin> set f \<Longrightarrow> last (js_split CHR '';'' (js_join '';'' (ps @ [f]))) = f"
  by (cases "ps = []") (simp_all add: js_join_snoc js_split_nosep js_split_last_app)

lemma concat_stage_2: "concat_stage 2 = ''[v0][a0][v1][a1]concat=n=2:v=1:a=1[vout][aout]''"
  by (simp add: concat_stage_def alternating_labels_def show_nat_small digit_def upt_rec numeral_2_eq_2)

text \<open>
  Claim C1. For every list of N clips and every array of audio flags, the graph has
  \<open>2N + 1\<close> stages; the last one, which is also what follows the last \<open>;\<close> of the graph,
  is the concatenation stage of the specification: the labels \<open>[v0][a0]...[vN-1][aN-1]\<close>,
  \<open>concat=n=N:v=1:a=1\<close> and the outputs \<open>[vout][aout]\<close>; no other stage produces
  \<open>[vout][aout]\<close>; and for two clips the stage is
  \<open>[v0][a0][v1][a1]concat=n=2:v=1:a=1[vout][aout]\<close>.
\<close>

theorem final_concat_stage:
  "length (buildFilterParts B clips fl) = 2 * length clips + 1
   \<and> last (buildFilterParts B clips fl) = concat_stage (length clips)
   \<and> (\<forall>k < 2 * length clips. \<not> suffix ''[vout][aout]'' (buildFilterParts B clips fl ! k))
   \<and> last (js_split CHR '';'' (buildFilterForConcat B clips fl)) = concat_stage (length clips)
   \<and> (length clips = 2 \<longrightarrow>
        last (js_split CHR '';'' (buildFilterForConcat B clips fl))
          = ''[v0][a0][v1][a1]concat=n=2:v=1:a=1[vout][aout]'')"
proof -
  let ?N = "length clips"
  have 1: "length (buildFilterParts B clips fl) = 2 * ?N + 1"
    by (simp add: parts_eq clip_stages_length)
  have 2: "last (buildFilterParts B clips fl) = concat_stage ?N"
    by (simp add: parts_eq)
  have 3: "\<not> suffix ''[vout][aout]'' (buildFilterParts B clips fl ! k)" if "k < 2 * ?N" for k
  proof -
    have "buildFilterParts B clips fl ! k = clip_stages B clips fl ?N ! k"
      using that by (simp add: parts_eq nth_append clip_stages_length)
    moreover have "clip_stages B clips fl ?N ! k \<in> set (clip_stages B clips fl ?N)"
      using that by (simp add: clip_stages_length)
    ultimately show ?thesis using clip_stage_not_final by simp
  qed
  have 4: "last (js_split CHR '';'' (buildFilterForConcat B clips fl)) = concat_stage ?N"
    unfolding buildFilterForConcat_def parts_eq
    by (rule last_split_join[OF concat_stage_no_semi])
  show ?thesis using 1 2 3 4 concat_stage_2 by simp
qed

lemma example_normalized: "normTimeline B example_timeline = Inr example_clips"
  by (simp add: normTimeline_def coerced_def example_timeline_def example_clips_def coerce_clip_def
      field_or_def well_typed_def well_ranged_def js_sort_def by_start_def)

lemma dur_normalized:
  "isFinite (in' c) \<Longrightarrow> isFinite (out c) \<Longrightarrow> js_gt (out c) (in' c) \<Longrightarrow>
   dur_of c = js_sub (out c) (in' c)"
  by (cases "in' c"; cases "out c") (auto simp: dur_of_def)

text \<open>
  Claim C3. In a normalized timeline with one audio flag per clip, clip \<open>i\<close> contributes a
  video trim stage labelled \<open>v{i}\<close> and an audio stage labelled \<open>a{i}\<close>: when its flag is
  false the silence source \<open>aevalsrc=0:d=...\<close> whose duration is \<open>out - in\<close> of clip \<open>i\<close>
  itself, when its flag is true the audio trim with timestamp reset.
\<close>

theorem stages_of_normalized_clip:
  assumes "normTimeline B raw = Inr clips" and "length flags = length clips" and "i < length clips"
  shows "buildFilterParts B clips (Some flags) ! (2 * i) =
           ''['' @ show_nat i @ '':v]trim=start='' @ NumberToString B (in' (clips ! i)) @ '':duration=''
             @ NumberToString B (js_sub (out (clips ! i)) (in' (clips ! i)))
             @ '',setpts=PTS-STARTPTS[v'' @ show_nat i @ '']''
       \<and> (\<not> flags ! i \<longrightarrow>
            buildFilterParts B clips (Some flags) ! (2 * i + 1) =
              ''aevalsrc=0:d='' @ NumberToString B (js_sub (out (clips ! i)) (in' (clips ! i)))
                @ ''[a'' @ show_nat i @ '']'')
       \<and> (flags ! i \<longrightarrow>
            buildFilterParts B clips (Some flags) ! (2 * i + 1) =
              ''['' @ show_nat i @ '':a]atrim=start='' @ NumberToString B (in' (clips ! i)) @ '':duration=''
                @ NumberToString B (js_sub (out (clips ! i)) (in' (clips ! i)))
                @ '',asetpts=PTS-STARTPTS[a'' @ show_nat i @ '']'')"
proof -
  have "clips ! i \<in> set clips" using assms(3) by simp
  then have "isFinite (in' (clips ! i))" "isFinite (out (clips ! i))"
    "js_gt (out (clips ! i)) (in' (clips ! i))"
    using normTimeline_props[OF assms(1)] by blast+
  then have d: "dur_of (clips ! i) = js_sub (out (clips ! i)) (in' (clips ! i))"
    by (rule dur_normalized)
  show ?thesis
    using parts_nth[OF assms(3), of B "Some flags"] assms(2,3) d
    by (simp add: video_stage_def audio_stage_def silence_stage_def)
qed

theorem stages_of_normalized_clip_witness:
  "normTimeline example_builtins example_timeline = Inr example_clips
   \<and> length [True, False] = length example_clips \<and> 1 < length example_clips
   \<and> buildFilterParts example_builtins example_clips (Some [True, False]) ! 2
       = ''[1:v]trim=start=0:duration=3,setpts=PTS-STARTPTS[v1]''
   \<and> buildFilterParts example_builtins example_clips (Some [True, False]) ! 3
       = ''aevalsrc=0:d=3[a1]''"
  using stages_of_normalized_clip[of example_builtins example_timeline example_clips "[True, False]" 1]
  by (simp add: example_normalized example_clips_def example_builtins_def show_nat_small digit_def)













theorem final_concat_stage_witness:
  "length example_clips = 2
   \<and> buildFilterForConcat example_builtins example_clips (Some [True, False])
       = ''[0:v]trim=start=2:duration=3,setpts=PTS-STARTPTS[v0];[0:a]atrim=start=2:duration=3,asetpts=PTS-STARTPTS[a0];[1:v]trim=start=0:duration=3,setpts=PTS-STARTPTS[v1];aevalsrc=0:d=3[a1];[v0][a0][v1][a1]concat=n=2:v=1:a=1[vout][aout]''
   \<and> last (js_split CHR '';'' (buildFilterForConcat example_builtins example_clips (Some [True, False])))
       = ''[v0][a0][v1][a1]concat=n=2:v=1:a=1[vout][aout]''"
proof -
  have len: "length example_clips = 2" by (simp add: example_clips_def)
  have g: "buildFilterForConcat example_builtins example_clips (Some [True, False])
       = ''[0:v]trim=start=2:duration=3,setpts=PTS-STARTPTS[v0];[0:a]atrim=start=2:duration=3,asetpts=PTS-STARTPTS[a0];[1:v]trim=start=0:duration=3,setpts=PTS-STARTPTS[v1];aevalsrc=0:d=3[a1];[v0][a0][v1][a1]concat=n=2:v=1:a=1[vout][aout]''"
    by (simp add: example_clips_def buildFilterForConcat_def buildFilterParts_def concat_loop_def
      concat_step_def video_stage_def audio_stage_def silence_stage_def dur_of_def
      example_builtins_def show_nat_small digit_def upt_rec numeral_2_eq_2)
  have l: "last (js_split CHR '';'' (buildFilterForConcat example_builtins example_clips (Some [True, False])))
       = ''[v0][a0][v1][a1]concat=n=2:v=1:a=1[vout][aout]''"
    using final_concat_stage[of example_builtins example_clips "Some [True, False]"] len by blast
  show ?thesis using len g l by (intro conjI)
qed

theorem normTimeline_idempotent_witness:
  "normTimeline example_builtins example_timeline = Inr example_clips
   \<and> normTimeline example_builtins (timeline_value example_clips) = Inr example_clips"
  using normTimeline_idempotent[of example_builtins example_timeline]
  by (simp add: example_normalized)

section \<open>Properties of the tag list and the stream prober\<close>

lemma dedup_first_snoc:
  "dedup_first (xs @ [x]) = (if x \<in> set xs then dedup_first xs else dedup_first xs @ [x])"
  by (simp add: dedup_first_def)

lemma set_dedup_first: "set (dedup_first xs) = set xs"
  by (simp add: dedup_first_def)

lemma Array_from_Set_dedup: "Array_from_Set xs = dedup_first xs"
proof (induction xs rule: rev_induct)
  case Nil
  then show ?case by (simp add: Array_from_Set_def dedup_first_def)
next
  case (snoc x xs)
  have "Array_from_Set (xs @ [x]) = Set_add (Array_from_Set xs) x"
    by (simp add: Array_from_Set_def)
  then show ?case using snoc by (simp add: Set_add_def dedup_first_snoc set_dedup_first)
qed

lemma dedup_first_prefix: "prefix (dedup_first xs) (dedup_first (xs @ ys))"
proof (induction ys rule: rev_induct)
  case Nil
  then show ?case by simp
next
  case (snoc y ys)
  have "dedup_first (xs @ ys @ [y]) = dedup_first ((xs @ ys) @ [y])" by simp
  also have "\<dots> = (if y \<in> set (xs @ ys) then dedup_first (xs @ ys) else dedup_first (xs @ ys) @ [y])"
    by (rule dedup_first_snoc)
  finally show ?case using snoc by (auto simp: prefix_def)
qed

lemma dedup_first_take: "prefix (dedup_first (take n xs)) (dedup_first xs)"
  using dedup_first_prefix[of "take n xs" "drop n xs"] by simp

lemma dedup_first_length: "length (dedup_first xs) \<le> length xs"
  by (simp add: dedup_first_def) (metis length_remdups_leq length_rev)

lemma dedup_first_distinct: "distinct (dedup_first xs)"
  by (simp add: dedup_first_def)

lemma tag_list_example: "tag_list ''Funny, funny , CATS,,cats'' = [''funny'', ''cats'']"
  by code_simp

text \<open>
  Claim C6 as stated fails: the cut to 30 entries comes before the duplicates are removed.
  Of 32 entries with one duplicate among the first 30, the code keeps 29 tags, where
  removing duplicates first and cutting to 30 afterwards gives 30.
\<close>

theorem tag_list_counterexample:
  "tag_list ''a,a,b,c,d,e,f,g,h,i,j,k,l,m,n,o,p,q,r,s,t,u,v,w,x,y,z,0,1,2,3,4''
     = [''a'',''b'',''c'',''d'',''e'',''f'',''g'',''h'',''i'',''j'',''k'',''l'',''m'',''n'',''o'',''p'',''q'',''r'',''s'',''t'',''u'',''v'',''w'',''x'',''y'',''z'',''0'',''1'',''2'']
   \<and> spec_tag_list ''a,a,b,c,d,e,f,g,h,i,j,k,l,m,n,o,p,q,r,s,t,u,v,w,x,y,z,0,1,2,3,4''
     = [''a'',''b'',''c'',''d'',''e'',''f'',''g'',''h'',''i'',''j'',''k'',''l'',''m'',''n'',''o'',''p'',''q'',''r'',''s'',''t'',''u'',''v'',''w'',''x'',''y'',''z'',''0'',''1'',''2'',''3'']
   \<and> tag_list ''a,a,b,c,d,e,f,g,h,i,j,k,l,m,n,o,p,q,r,s,t,u,v,w,x,y,z,0,1,2,3,4''
     \<noteq> spec_tag_list ''a,a,b,c,d,e,f,g,h,i,j,k,l,m,n,o,p,q,r,s,t,u,v,w,x,y,z,0,1,2,3,4''"
  by code_simp

text \<open>
  Claim C6, amended. The stored tags are the first 30 non-empty trimmed lowercased entries
  with duplicates removed, first occurrences kept: a prefix of the deduplicated list of
  all entries, of at most 30 distinct tags; with at most 30 non-empty entries it is the
  list of the specification; and \<open>"Funny, funny , CATS,,cats"\<close> gives \<open>["funny", "cats"]\<close>.
\<close>

theorem tag_list_first_thirty:
  "tagsArr B (JStr s) = Inr (tag_list s)
   \<and> tag_list s = dedup_first (take 30 (tag_entries s))
   \<and> prefix (tag_list s) (dedup_first (tag_entries s))
   \<and> distinct (tag_list s)
   \<and> length (tag_list s) \<le> 30
   \<and> (\<forall>t \<in> set (tag_list s). t \<noteq> [] \<and> (\<exists>e \<in> set (js_split CHR '','' s). t = js_toLowerCase (js_trim e)))
   \<and> (length (tag_entries s) \<le> 30 \<longrightarrow> tag_list s = spec_tag_list s)
   \<and> tag_list ''Funny, funny , CATS,,cats'' = [''funny'', ''cats'']"
proof -
  have 1: "tag_list s = dedup_first (take 30 (tag_entries s))"
    by (simp add: tag_list_def Array_from_Set_dedup)
  have 2: "prefix (tag_list s) (dedup_first (tag_entries s))"
    unfolding 1 by (rule dedup_first_take)
  have 3: "distinct (tag_list s)" unfolding 1 by (rule dedup_first_distinct)
  have "length (tag_list s) \<le> length (take 30 (tag_entries s))"
    unfolding 1 by (rule dedup_first_length)
  then have 4: "length (tag_list s) \<le> 30" by simp
  have "set (tag_list s) \<subseteq> set (tag_entries s)"
    unfolding 1 set_dedup_first by (rule set_take_subset)
  then have 5: "\<forall>t \<in> set (tag_list s). t \<noteq> [] \<and> (\<exists>e \<in> set (js_split CHR '','' s). t = js_toLowerCase (js_trim e))"
    by (auto simp: tag_entries_def)
  have 6: "length (tag_entries s) \<le> 30 \<longrightarrow> tag_list s = spec_tag_list s"
  proof
    assume l: "length (tag_entries s) \<le> 30"
    then have "length (dedup_first (tag_entries s)) \<le> 30"
      using dedup_first_length[of "tag_entries s"] by simp
    then show "tag_list s = spec_tag_list s" using l by (simp add: 1 spec_tag_list_def)
  qed
  have 0: "tagsArr B (JStr s) = Inr (tag_list s)"
    by (cases s) (simp_all add: tagsArr_def)
  show ?thesis using 0 1 2 3 4 5 6 tag_list_example by (intro conjI)
qed

theorem tag_list_first_thirty_witness:
  "length (tag_entries ''Funny, funny , CATS,,cats'') \<le> 30
   \<and> tag_list ''Funny, funny , CATS,,cats'' = [''funny'', ''cats'']
   \<and> spec_tag_list ''Funny, funny , CATS,,cats'' = [''funny'', ''cats'']"
proof -
  have l: "length (tag_entries ''Funny, funny , CATS,,cats'') \<le> 30" by code_simp
  have "tag_list ''Funny, funny , CATS,,cats'' = spec_tag_list ''Funny, funny , CATS,,cats''"
    using tag_list_first_thirty[of example_builtins "''Funny, funny , CATS,,cats''"] l by blast
  moreover have "tag_list ''Funny, funny , CATS,,cats'' = [''funny'', ''cats'']"
    using tag_list_first_thirty[of example_builtins "''Funny, funny , CATS,,cats''"] by blast
  ultimately show ?thesis using l by simp
qed

text \<open>
  Claim C7. The prober always returns a boolean and never throws; it returns true exactly
  when the probe process closed with exit code 0 and its trimmed output is \<open>audio\<close>; a
  spawn error, another exit code and any other output give false.
\<close>

theorem hasAudioStream_exact:
  "(\<exists>b. hasAudioStream spawn p = Inr b)
   \<and> (hasAudioStream spawn p = Inr True) =
       (\<exists>sout serr. spawn ''ffprobe'' (probe_args p) = Closed (Some 0) sout serr \<and> js_trim sout = ''audio'')
   \<and> (\<forall>e. spawn ''ffprobe'' (probe_args p) = SpawnError e \<longrightarrow> hasAudioStream spawn p = Inr False)
   \<and> (\<forall>code sout serr. spawn ''ffprobe'' (probe_args p) = Closed code sout serr \<and> code \<noteq> Some 0
         \<longrightarrow> hasAudioStream spawn p = Inr False)
   \<and> (\<forall>code sout serr. spawn ''ffprobe'' (probe_args p) = Closed code sout serr \<and> js_trim sout \<noteq> ''audio''
         \<longrightarrow> hasAudioStream spawn p = Inr False)"
  by (cases "spawn ''ffprobe'' (probe_args p)")
     (auto simp: hasAudioStream_def runCmd_def)

theorem hasAudioStream_exact_witness:
  "hasAudioStream (\<lambda>cmd args. Closed (Some 0) (''audio'' @ [CHR 0x0A]) []) ''/tmp/x/inputs/src-0-7.mp4'' = Inr True
   \<and> hasAudioStream (\<lambda>cmd args. SpawnError (Error ''spawn ffprobe ENOENT'')) ''/tmp/x/inputs/src-0-7.mp4'' = Inr False
   \<and> hasAudioStream (\<lambda>cmd args. Closed (Some 1) ''audio'' ''No such file'') ''/tmp/x/inputs/src-0-7.mp4'' = Inr False
   \<and> hasAudioStream (\<lambda>cmd args. Closed (Some 0) ''audio,audio'' []) ''/tmp/x/inputs/src-0-7.mp4'' = Inr False"
proof -
  have t: "js_trim (''audio'' @ [CHR 0x0A]) = ''audio''" by (simp add: js_trim_def isWhiteSpace_def)
  have f: "js_trim ''audio,audio'' \<noteq> ''audio''" by (simp add: js_trim_def isWhiteSpace_def)
  show ?thesis
    using hasAudioStream_exact[of "\<lambda>cmd args. Closed (Some 0) (''audio'' @ [CHR 0x0A]) []" "''/tmp/x/inputs/src-0-7.mp4''"]
      hasAudioStream_exact[of "\<lambda>cmd args. SpawnError (Error ''spawn ffprobe ENOENT'')" "''/tmp/x/inputs/src-0-7.mp4''"]
      hasAudioStream_exact[of "\<lambda>cmd args. Closed (Some 1) ''audio'' ''No such file''" "''/tmp/x/inputs/src-0-7.mp4''"]
      hasAudioStream_exact[of "\<lambda>cmd args. Closed (Some 0) ''audio,audio'' []" "''/tmp/x/inputs/src-0-7.mp4''"]
      t f
    by simp
qed

section \<open>Properties of the export orchestrator\<close>

lemma cleaned_trans:
  assumes "prefix (trace w) (trace w1)" and "cleaned E dir w1 w'"
  shows "cleaned E dir w w'"
proof -
  have le: "length (trace w) \<le> length (trace w1)" using assms(1) by (rule prefix_length_le)
  have "set (drop (length (trace w1)) (trace w')) \<subseteq> set (drop (length (trace w)) (trace w'))"
    using le by (rule set_drop_subset_set_drop)
  then show ?thesis using assms prefix_order.trans unfolding cleaned_def new_events_def by blast
qed

lemma exits_cleanD:
  "exits_clean E dir m \<Longrightarrow> m w = (s, w') \<Longrightarrow>
   prefix (trace w) (trace w') \<and> ((\<exists>r. s = Return r) \<longrightarrow> cleaned E dir w w')"
  unfolding exits_clean_def by blast

lemma exits_cleanI:
  "(\<And>w s w'. m w = (s, w') \<Longrightarrow>
      prefix (trace w) (trace w') \<and> ((\<exists>r. s = Return r) \<longrightarrow> cleaned E dir w w'))
   \<Longrightarrow> exits_clean E dir m"
  unfolding exits_clean_def by blast

lemma exits_clean_then_do:
  assumes "exits_clean E dir m" and "\<And>x. exits_clean E dir (f x)"
  shows "exits_clean E dir (then_do m f)"
proof (rule exits_cleanI)
  fix w s w'
  assume td: "then_do m f w = (s, w')"
  obtain s1 w1 where mw: "m w = (s1, w1)" by (cases "m w")
  note m1 = exits_cleanD[OF assms(1) mw]
  show "prefix (trace w) (trace w') \<and> ((\<exists>r. s = Return r) \<longrightarrow> cleaned E dir w w')"
  proof (cases s1)
    case (Throw e)
    then show ?thesis using m1 mw td by (auto simp: then_do_def)
  next
    case (Return r)
    then show ?thesis using m1 mw td by (auto simp: then_do_def)
  next
    case (Continue x)
    then have fw: "f x w1 = (s, w')" using mw td by (simp add: then_do_def)
    note f1 = exits_cleanD[OF assms(2) fw]
    show ?thesis using m1 f1 cleaned_trans[of w w1 E dir w'] by (meson prefix_order.trans)
  qed
qed

lemma exits_clean_attempt: "exits_clean E dir (attempt r)"
  by (cases r) (auto simp: exits_clean_def attempt_def)

lemma exits_clean_emit: "exits_clean E dir (emit ev)"
  by (auto simp: exits_clean_def emit_def)

lemma exits_clean_create: "exits_clean E dir (create p)"
  by (auto simp: exits_clean_def create_def)

lemma cleanup_cleaned: "cleanup E dir w = (s, w') \<Longrightarrow> s = Continue () \<and> cleaned E dir w w'"
  by (cases "rmSync E dir") (auto simp: cleanup_def cleaned_def new_events_def)

lemma fail_cleaned:
  "fail E dir st msg w = (s, w') \<Longrightarrow> s = Return (Response st (error_body msg)) \<and> cleaned E dir w w'"
  using cleanup_cleaned[of E dir w]
  by (cases "cleanup E dir w") (auto simp: fail_def then_do_def respond_def)

lemma exits_clean_fail: "exits_clean E dir (fail E dir st msg)"
  by (rule exits_cleanI) (use fail_cleaned in \<open>fastforce simp: cleaned_def\<close>)

lemma finish_cleaned:
  "finish E dir rows tn w = (s, w') \<Longrightarrow> cleaned E dir w w'"
  using cleanup_cleaned[of E dir w]
  by (cases "cleanup E dir w"; cases "get_field (case rows of [] \<Rightarrow> JUndefined | r # _ \<Rightarrow> r) ''id''")
     (auto simp: finish_def then_do_def respond_def attempt_def)

lemma exits_clean_finish: "exits_clean E dir (finish E dir rows tn)"
  by (rule exits_cleanI) (use finish_cleaned in \<open>fastforce simp: cleaned_def\<close>)

lemma exits_clean_check_known: "exits_clean E dir (check_known E dir byId clips)"
  by (induction clips) (simp_all add: exits_clean_attempt exits_clean_fail)

lemma exits_clean_download: "exits_clean E dir (downloadS3ToFile E bucket key outPath)"
  unfolding downloadS3ToFile_def
  by (intro exits_clean_then_do exits_clean_emit)
     (auto split: s3_outcome.splits intro!: exits_clean_then_do exits_clean_attempt exits_clean_create)

lemma exits_clean_download_all:
  "exits_clean E dir (download_all B E dir bucket byId clips i inputPaths)"
proof (induction clips arbitrary: i inputPaths)
  case Nil
  then show ?case by (simp add: exits_clean_attempt)
next
  case (Cons c cs)
  show ?case
    unfolding download_all.simps
    by (intro exits_clean_then_do exits_clean_attempt)
       (auto intro!: exits_clean_then_do exits_clean_fail exits_clean_download Cons.IH)
qed

lemma exits_clean_probe_all: "exits_clean E dir (probe_all E ps)"
  by (induction ps)
     (auto intro!: exits_clean_then_do exits_clean_attempt exits_clean_emit)

lemma exits_clean_export: "exits_clean E dir (export_job B E req dir f clips bucket)"
  unfolding export_job_def Let_def
  by (intro exits_clean_then_do exits_clean_attempt exits_clean_emit exits_clean_create
      exits_clean_check_known exits_clean_download_all exits_clean_probe_all exits_clean_finish)

lemma exits_clean_publish: "exits_clean E dir (publish B E req dir)"
  unfolding publish_def
  by (intro exits_clean_then_do exits_clean_attempt)
     (auto split: option.splits intro!: exits_clean_fail exits_clean_export)

lemma same_outcome_then_do:
  assumes "same_outcome m m'" and "\<And>x. same_outcome (f x) (f' x)"
  shows "same_outcome (then_do m f) (then_do m' f')"
  unfolding same_outcome_def
proof (intro allI)
  fix w w'
  obtain s w1 where mw: "m w = (s, w1)" by (cases "m w")
  obtain s' w1' where mw': "m' w' = (s', w1')" by (cases "m' w'")
  have eq: "s = s'" using assms(1) mw mw' unfolding same_outcome_def by (metis fst_conv)
  show "fst (then_do m f w) = fst (then_do m' f' w')"
  proof (cases s)
    case (Continue x)
    then show ?thesis using mw mw' eq assms(2)[of x]
      by (simp add: then_do_def same_outcome_def)
  qed (use mw mw' eq in \<open>simp_all add: then_do_def\<close>)
qed

lemma same_outcome_attempt: "same_outcome (attempt r) (attempt r)"
  by (cases r) (simp_all add: same_outcome_def attempt_def)

lemma same_outcome_emit: "same_outcome (emit ev) (emit ev')"
  by (simp add: same_outcome_def emit_def)

lemma same_outcome_create: "same_outcome (create p) (create p')"
  by (simp add: same_outcome_def create_def)

lemma same_outcome_cleanup: "same_outcome (cleanup E dir) (cleanup E' dir')"
  by (auto simp: same_outcome_def cleanup_def split: option.splits)

lemma same_outcome_respond: "same_outcome (respond r) (respond r)"
  by (simp add: same_outcome_def respond_def)

lemma same_outcome_fail: "same_outcome (fail E dir st msg) (fail E' dir' st msg)"
  unfolding fail_def
  by (intro same_outcome_then_do same_outcome_cleanup same_outcome_respond)

lemma same_outcome_finish: "same_outcome (finish E dir rows tn) (finish E' dir' rows tn)"
  unfolding finish_def
  by (intro same_outcome_then_do same_outcome_cleanup same_outcome_respond same_outcome_attempt)

lemma same_outcome_check_known:
  "same_outcome (check_known E dir byId clips) (check_known E' dir byId clips)"
  by (induction clips) (simp_all add: same_outcome_attempt same_outcome_fail)

lemma same_outcome_download:
  "same_outcome (downloadS3ToFile E bucket key outPath)
                (downloadS3ToFile (E\<lparr>rmSync := x\<rparr>) bucket key outPath)"
  unfolding downloadS3ToFile_def
  by (intro same_outcome_then_do same_outcome_emit)
     (auto split: s3_outcome.splits intro!: same_outcome_then_do same_outcome_attempt same_outcome_create)

lemma same_outcome_download_all:
  "same_outcome (download_all B E dir bucket byId clips i inputPaths)
                (download_all B (E\<lparr>rmSync := x\<rparr>) dir bucket byId clips i inputPaths)"
proof (induction clips arbitrary: i inputPaths)
  case Nil
  then show ?case by (simp add: same_outcome_attempt)
next
  case (Cons c cs)
  show ?case
    unfolding download_all.simps
    by (intro same_outcome_then_do same_outcome_attempt)
       (auto intro!: same_outcome_then_do same_outcome_fail same_outcome_download Cons.IH)
qed

lemma same_outcome_probe_all:
  "same_outcome (probe_all E ps) (probe_all (E\<lparr>rmSync := x\<rparr>) ps)"
  by (induction ps)
     (auto intro!: same_outcome_then_do same_outcome_attempt same_outcome_emit)

lemma same_outcome_export:
  "same_outcome (export_job B E req dir f clips bucket)
                (export_job B (E\<lparr>rmSync := x\<rparr>) req dir f clips bucket)"
  unfolding export_job_def Let_def
  apply simp
  by (intro same_outcome_then_do same_outcome_attempt same_outcome_emit same_outcome_create
      same_outcome_check_known same_outcome_download_all same_outcome_probe_all same_outcome_finish)

lemma same_outcome_publish:
  "same_outcome (publish B E req dir) (publish B (E\<lparr>rmSync := x\<rparr>) req dir)"
  unfolding publish_def
  by (intro same_outcome_then_do same_outcome_attempt)
     (auto split: option.splits intro!: same_outcome_fail same_outcome_export)

lemma guarded_same_response:
  "fst (guarded B (E\<lparr>rmSync := x\<rparr>) req dir w') = fst (guarded B E req dir w)"
proof -
  have "fst (publish B E req dir w) = fst (publish B (E\<lparr>rmSync := x\<rparr>) req dir w')"
    using same_outcome_publish[of B E req dir x] unfolding same_outcome_def by blast
  then show ?thesis
    by (cases "publish B E req dir w"; cases "publish B (E\<lparr>rmSync := x\<rparr>) req dir w'")
       (auto simp: guarded_def split: step.splits)
qed

lemma ends_then_do: "(\<And>x. ends (f x)) \<Longrightarrow> ends (then_do m f)"
  unfolding ends_def then_do_def
  by (auto split: prod.splits step.splits)

lemma ends_respond: "ends (respond r)"
  by (simp add: ends_def respond_def)

lemma ends_fail: "ends (fail E dir st msg)"
  unfolding fail_def by (intro ends_then_do ends_respond)

lemma ends_finish: "ends (finish E dir rows tn)"
  unfolding finish_def by (intro ends_then_do ends_respond)

lemma ends_export: "ends (export_job B E req dir f clips bucket)"
  unfolding export_job_def Let_def by (intro ends_then_do ends_finish)

lemma ends_publish: "ends (publish B E req dir)"
  unfolding publish_def
  by (intro ends_then_do) (auto split: option.splits intro!: ends_fail ends_export)

lemma guarded_cleaned:
  "guarded B E req dir w = (r, w') \<Longrightarrow> cleaned E dir w w'"
proof -
  assume g: "guarded B E req dir w = (r, w')"
  obtain s w1 where p: "publish B E req dir w = (s, w1)" by (cases "publish B E req dir w")
  note inv = exits_cleanD[OF exits_clean_publish p]
  show ?thesis
  proof (cases s)
    case (Return r')
    then show ?thesis using inv p g by (simp add: guarded_def)
  next
    case (Continue r')
    then show ?thesis using ends_publish[of B E req dir] p unfolding ends_def by blast
  next
    case (Throw e)
    obtain s2 w2 where c: "cleanup E dir (w1\<lparr>trace := trace w1 @ [ConsoleError e]\<rparr>) = (s2, w2)"
      by (cases "cleanup E dir (w1\<lparr>trace := trace w1 @ [ConsoleError e]\<rparr>)")
    have w': "w' = w2" using g p Throw c by (simp add: guarded_def then_do_def emit_def)
    have "prefix (trace w) (trace (w1\<lparr>trace := trace w1 @ [ConsoleError e]\<rparr>))"
      using inv by (simp add: prefix_def) (metis append.assoc)
    then show ?thesis using cleaned_trans cleanup_cleaned[OF c] w' by blast
  qed
qed

lemma show_nat_now: "show_nat 1700000000000 = ''1700000000000''"
  by (simp add: show_nat.simps[of "numeral n" for n] show_nat_small digit_def)

lemmas run_defs = handler_def guarded_def publish_def export_job_def finish_def fail_def cleanup_def
  then_do_def attempt_def emit_def create_def respond_def destructure_def with_default_def
  or_empty_def normTimeline_def coerced_def coerce_clip_def field_or_def well_typed_def
  well_ranged_def js_sort_def by_start_def index_rows_def row_entry_def new_Map_def
  downloadS3ToFile_def path_join_def inside_def hasAudioStream_def runCmd_def probe_args_def
  encode_args_def chosen_visibility_def insert_params_def tagsArr_def tag_list_def
  tag_entries_def Array_from_Set_def Set_add_def js_trim_def js_toLowerCase_def isWhiteSpace_def
  isUpper_def buildFilterForConcat_def buildFilterParts_def concat_loop_def concat_step_def
  video_stage_def audio_stage_def silence_stage_def dur_of_def error_body_def
  example_builtins_def example_env_def example_request_def empty_world_def
  show_nat_small show_nat_now digit_def Let_def

lemma cleanup_run:
  "fst (cleanup E dir w) = Continue () \<and> trace (snd (cleanup E dir w)) = trace w @ [RmSync dir]"
  by (cases "rmSync E dir") (simp_all add: cleanup_def)



lemma new_events_same_trace: "trace w0 = trace w \<Longrightarrow> new_events w0 w' = new_events w w'"
  by (simp add: new_events_def)

lemma handler_guarded:
  assumes "mkdtempSync E = Inr dir" and "mkdirSync E (path_join dir ''inputs'') = None"
    and "mkdirSync E (path_join dir ''out'') = None"
  shows "handler B E req w =
           (Some (fst (guarded B E req dir (w\<lparr>files := files w @ [dir, path_join dir ''inputs'', path_join dir ''out'']\<rparr>))),
            snd (guarded B E req dir (w\<lparr>files := files w @ [dir, path_join dir ''inputs'', path_join dir ''out'']\<rparr>)))"
  using assms by (simp add: handler_def split: prod.splits)

text \<open>
  Claim C4. Once the scratch directory and its two subdirectories are made, every request
  ends with a response, whatever the request and whatever the collaborators do (each
  validation failure, the missing bucket, an exception of any step, success); before the
  response \<open>cleanup\<close> has called \<open>fs.rmSync\<close> on the scratch directory, so that nothing of
  the directory is left unless that call itself throws; and what that call does never
  changes the response.
\<close>

theorem scratch_removed_on_every_exit:
  assumes "mkdtempSync E = Inr dir" and "mkdirSync E (path_join dir ''inputs'') = None"
    and "mkdirSync E (path_join dir ''out'') = None"
  shows "\<exists>r w'. handler B E req w = (Some r, w')
           \<and> prefix (trace w) (trace w') \<and> RmSync dir \<in> set (new_events w w')
           \<and> (rmSync E dir = None \<longrightarrow> (\<forall>p \<in> set (files w'). \<not> inside dir p))
           \<and> (\<forall>x. fst (handler B (E\<lparr>rmSync := x\<rparr>) req w) = Some r)"
proof -
  let ?w3 = "w\<lparr>files := files w @ [dir, path_join dir ''inputs'', path_join dir ''out'']\<rparr>"
  obtain r w' where g: "guarded B E req dir ?w3 = (r, w')" by (cases "guarded B E req dir ?w3")
  have h: "handler B E req w = (Some r, w')" using handler_guarded[OF assms] g by simp
  have c: "cleaned E dir ?w3 w'" using g by (rule guarded_cleaned)
  have t: "trace ?w3 = trace w" by simp
  have 1: "prefix (trace w) (trace w')" using c t by (simp add: cleaned_def)
  have 2: "RmSync dir \<in> set (new_events w w')"
    using c new_events_same_trace[OF t] by (simp add: cleaned_def)
  have 3: "rmSync E dir = None \<longrightarrow> (\<forall>p \<in> set (files w'). \<not> inside dir p)"
    using c by (simp add: cleaned_def)
  have 4: "fst (handler B (E\<lparr>rmSync := x\<rparr>) req w) = Some r" for x
  proof -
    have "handler B (E\<lparr>rmSync := x\<rparr>) req w =
           (Some (fst (guarded B (E\<lparr>rmSync := x\<rparr>) req dir ?w3)), snd (guarded B (E\<lparr>rmSync := x\<rparr>) req dir ?w3))"
      using assms by (intro handler_guarded) simp_all
    then show ?thesis using guarded_same_response[where B=B and E=E and x=x and req=req and dir=dir and w="?w3" and w'="?w3"] g by simp
  qed
  have 5: "\<forall>x. fst (handler B (E\<lparr>rmSync := x\<rparr>) req w) = Some r" using 4 by simp
  show ?thesis using h 1 2 3 5 by (intro exI[of _ r] exI[of _ w'] conjI)
qed

text \<open>
  What the \<open>catch\<close> block answers: an exception \<open>e\<close> thrown in the \<open>try\<close> block is logged
  with \<open>console.error\<close> and answered with status 500 and the message of \<open>e\<close> itself when
  it is not empty, \<open>Failed to publish generated video\<close> otherwise.
\<close>

lemma caught_failure_response:
  assumes "mkdtempSync E = Inr dir" and "mkdirSync E (path_join dir ''inputs'') = None"
    and "mkdirSync E (path_join dir ''out'') = None"
    and "publish B E req dir (w\<lparr>files := files w @ [dir, path_join dir ''inputs'', path_join dir ''out'']\<rparr>)
           = (Throw e, w1)"
  shows "\<exists>w'. handler B E req w =
                 (Some (Response 500 (JObj [(''error'',
                    JStr (if message e \<noteq> [] then message e else ''Failed to publish generated video''))])), w')
              \<and> ConsoleError e \<in> set (new_events w w')
              \<and> RmSync dir \<in> set (new_events w w')"
proof -
  let ?w3 = "w\<lparr>files := files w @ [dir, path_join dir ''inputs'', path_join dir ''out'']\<rparr>"
  let ?w' = "snd (cleanup E dir (w1\<lparr>trace := trace w1 @ [ConsoleError e]\<rparr>))"
  have h: "handler B E req w =
             (Some (Response 500 (JObj [(''error'',
                    JStr (if message e \<noteq> [] then message e else ''Failed to publish generated video''))])), ?w')"
    using handler_guarded[OF assms(1-3), of B req w] assms(4)
    by (simp add: guarded_def then_do_def emit_def error_body_def)
  have "prefix (trace ?w3) (trace w1)" using exits_cleanD[OF exits_clean_publish assms(4)] by simp
  then obtain evs where evs: "trace w1 = trace w @ evs" by (auto simp: prefix_def)
  have "trace ?w' = trace w @ evs @ [ConsoleError e, RmSync dir]"
    using cleanup_run[of E dir "w1\<lparr>trace := trace w1 @ [ConsoleError e]\<rparr>"] evs by simp
  then have "new_events w ?w' = evs @ [ConsoleError e, RmSync dir]" by (simp add: new_events_def)
  then show ?thesis using h by simp
qed


lemma example_run_short:
  "fst (handler example_builtins example_env example_request empty_world) =
     Some (Response 200 (JObj [(''ok'', JBool True), (''videoId'', JNum (Fin 8)), (''timelineName'', JStr ''Timeline'')]))
   \<and> files (snd (handler example_builtins example_env example_request empty_world)) = []"
  by (simp add: run_defs)

theorem scratch_removed_on_every_exit_witness:
  "mkdtempSync example_env = Inr ''/tmp/mytube-export-Ab12Cd''
   \<and> mkdirSync example_env (path_join ''/tmp/mytube-export-Ab12Cd'' ''inputs'') = None
   \<and> mkdirSync example_env (path_join ''/tmp/mytube-export-Ab12Cd'' ''out'') = None
   \<and> fst (handler example_builtins example_env example_request empty_world) =
       Some (Response 200 (JObj [(''ok'', JBool True), (''videoId'', JNum (Fin 8)), (''timelineName'', JStr ''Timeline'')]))
   \<and> files (snd (handler example_builtins example_env example_request empty_world)) = []
   \<and> fst (handler example_builtins (example_env\<lparr>rmSync := (\<lambda>p. Some (Error ''EBUSY''))\<rparr>) example_request empty_world) =
       Some (Response 200 (JObj [(''ok'', JBool True), (''videoId'', JNum (Fin 8)), (''timelineName'', JStr ''Timeline'')]))"
proof -
  have a: "mkdtempSync example_env = Inr ''/tmp/mytube-export-Ab12Cd''"
    and b: "mkdirSync example_env (path_join ''/tmp/mytube-export-Ab12Cd'' ''inputs'') = None"
    and c: "mkdirSync example_env (path_join ''/tmp/mytube-export-Ab12Cd'' ''out'') = None"
    by (simp_all add: example_env_def)
  from scratch_removed_on_every_exit[OF a b c, of example_builtins example_request empty_world]
  obtain r w' where h: "handler example_builtins example_env example_request empty_world = (Some r, w')"
    and x: "\<forall>x. fst (handler example_builtins (example_env\<lparr>rmSync := x\<rparr>) example_request empty_world) = Some r"
    by blast
  have r: "Some r = Some (Response 200 (JObj [(''ok'', JBool True), (''videoId'', JNum (Fin 8)), (''timelineName'', JStr ''Timeline'')]))"
    using h example_run_short by simp
  show ?thesis using a b c example_run_short x r by simp
qed

text \<open>
  Claim C8. A fatal failure of the export is to be answered with a generic message that
  holds no internal path. The handler does otherwise: when the encoder exits with code 1
  and an error text that names an input file in the scratch directory, the response of
  status 500 carries that text, path included.
\<close>

theorem generic_error_counterexample:
  "mkdtempSync encode_failure_env = Inr ''/tmp/mytube-export-Ab12Cd''
   \<and> fst (handler example_builtins encode_failure_env example_request empty_world) =
       Some (Response 500 (JObj [(''error'',
         JStr ''/tmp/mytube-export-Ab12Cd/inputs/src-0-7.mp4: Invalid data found when processing input'')]))"
  by (simp add: encode_failure_env_def run_defs)

lemma caught_failure_response_example:
  "mkdtempSync upload_failure_env = Inr ''/tmp/mytube-export-Ab12Cd''
   \<and> mkdirSync upload_failure_env (path_join ''/tmp/mytube-export-Ab12Cd'' ''inputs'') = None
   \<and> mkdirSync upload_failure_env (path_join ''/tmp/mytube-export-Ab12Cd'' ''out'') = None
   \<and> fst (publish example_builtins upload_failure_env example_request ''/tmp/mytube-export-Ab12Cd''
            (empty_world\<lparr>files := files empty_world @ [''/tmp/mytube-export-Ab12Cd'',
               path_join ''/tmp/mytube-export-Ab12Cd'' ''inputs'', path_join ''/tmp/mytube-export-Ab12Cd'' ''out'']\<rparr>))
       = Throw (Error [])
   \<and> fst (handler example_builtins upload_failure_env example_request empty_world) =
       Some (Response 500 (JObj [(''error'', JStr ''Failed to publish generated video'')]))"
proof -
  let ?w3 = "empty_world\<lparr>files := files empty_world @ [''/tmp/mytube-export-Ab12Cd'',
               path_join ''/tmp/mytube-export-Ab12Cd'' ''inputs'', path_join ''/tmp/mytube-export-Ab12Cd'' ''out'']\<rparr>"
  have a: "mkdtempSync upload_failure_env = Inr ''/tmp/mytube-export-Ab12Cd''"
    and b: "mkdirSync upload_failure_env (path_join ''/tmp/mytube-export-Ab12Cd'' ''inputs'') = None"
    and c: "mkdirSync upload_failure_env (path_join ''/tmp/mytube-export-Ab12Cd'' ''out'') = None"
    by (simp_all add: upload_failure_env_def example_env_def)
  have p: "fst (publish example_builtins upload_failure_env example_request ''/tmp/mytube-export-Ab12Cd'' ?w3)
             = Throw (Error [])"
    by (simp add: upload_failure_env_def run_defs)
  then obtain w1 where p1: "publish example_builtins upload_failure_env example_request ''/tmp/mytube-export-Ab12Cd'' ?w3
             = (Throw (Error []), w1)"
    by (cases "publish example_builtins upload_failure_env example_request ''/tmp/mytube-export-Ab12Cd'' ?w3") simp
  from caught_failure_response[OF a b c p1]
  have "fst (handler example_builtins upload_failure_env example_request empty_world) =
       Some (Response 500 (JObj [(''error'', JStr ''Failed to publish generated video'')]))"
    by auto
  then show ?thesis using a b c p by (intro conjI)
qed


end
